theory Spec2Isabelle
  imports Complex_Main "HOL-Library.Multiset" "HOL-Library.Signed_Division"
begin

section \<open>The maec processing-graph kernel\<close>

text \<open>
  The C++ sources embedded here are \<^verbatim>\<open>audio_module.cpp\<close> (buffer transfer, buffer
  creation, binding), \<^verbatim>\<open>fund_oscillator.cpp\<close> (the four fundamental oscillators),
  \<^verbatim>\<open>module_mixer.cpp\<close> (Mixdown and Mix-up) and the inline members of
  \<^verbatim>\<open>meta_audio.hpp\<close> (Counter, LatencyModule).

  Conventions.
  \<^item> A raw pointer \<^verbatim>\<open>AudioModule*\<close> or \<^verbatim>\<open>ChainInfo*\<close> is an address (\<open>addr option\<close>,
    \<open>None\<close> for \<^verbatim>\<open>nullptr\<close>) into an explicit store.
  \<^item> A \<^verbatim>\<open>std::unique_ptr<AudioBuffer>\<close> is an optional handle \<open>'b option\<close>. Where blocks
    only move from owner to owner the handle is the block itself (\<open>'b = AudioBuffer\<close>):
    a moved-from pointer is \<open>None\<close> and no two owners can see the same block. Where
    two blocks with equal contents coexist (Mix-up) the handle is an address into a
    store of blocks (\<open>'b = addr\<close>).
  \<^item> Samples are \<^verbatim>\<open>long double\<close> in the source and real numbers here; rounding is not
    modelled.
  \<^item> Dereferencing a null pointer, indexing outside a block and dividing by zero are
    results of type \<open>error\<close>.
\<close>

type_synonym addr = nat

datatype error = NullPointer | OutOfRange | DivisionByZero | SignedOverflow

subsection \<open>Audio blocks and descriptors\<close>

text \<open>
  Modelled from the spec: the class \<^verbatim>\<open>AudioBuffer\<close> (\<^verbatim>\<open>audio_buffer.hpp\<close>) is not among the
  sources. Section 3 and 4.2 of the specification give it as C channels by F frames of
  samples, \<^verbatim>\<open>create(frames, channels)\<close> allocating zero-initialised storage of exactly
  C * F cells. \<open>buf_samples\<close> lists the cells in the order of the interleaved cursor
  (\<^verbatim>\<open>ibegin()\<close>), which is also the order \<^verbatim>\<open>at(i)\<close> is read in; \<^verbatim>\<open>size()\<close> is the number of
  cells.
\<close>

record AudioBuffer =
  buf_frames :: nat
  buf_channels :: nat
  buf_samples :: "real list"

definition AudioBuffer_new :: "nat \<Rightarrow> nat \<Rightarrow> AudioBuffer" where
  "AudioBuffer_new sz channels =
     \<lparr>buf_frames = sz, buf_channels = channels,
      buf_samples = replicate (sz * channels) 0\<rparr>"

definition buf_size :: "AudioBuffer \<Rightarrow> nat" where
  "buf_size b = length (buf_samples b)"

text \<open>
  Modelled from the spec: the structures \<^verbatim>\<open>ModuleInfo\<close> and \<^verbatim>\<open>ChainInfo\<close> are declared in
  \<^verbatim>\<open>audio_module.hpp\<close>, which is not among the sources. Section 3 gives a descriptor
  as sample rate, channel count and block size. The source keeps two of them per
  module: \<^verbatim>\<open>this->info\<close>, a \<^verbatim>\<open>ModuleInfo\<close> held by value (copied from the predecessor in
  \<^verbatim>\<open>meta_start\<close>) whose block size the source names \<^verbatim>\<open>out_buffer\<close>, and \<^verbatim>\<open>this->chain\<close>, a
  pointer to the \<^verbatim>\<open>ChainInfo\<close> shared by the chain (installed by \<^verbatim>\<open>bind\<close>).
\<close>

record ModuleInfo =
  mi_sample_rate :: nat
  mi_channels :: nat
  out_buffer :: nat

record ChainInfo =
  ci_sample_rate :: nat
  ci_channels :: nat
  ci_buffer_size :: nat

type_synonym chain_store = "addr \<rightharpoonup> ChainInfo"

subsection \<open>AudioModule\<close>

record 'b AudioModule =
  backward :: "addr option"
  forward :: "addr option"
  chain :: "addr option"
  info :: ModuleInfo
  buff :: "'b option"

text \<open>\<^verbatim>\<open>AudioModule::set_buffer\<close>: \<^verbatim>\<open>this->buff = std::move(inbuff)\<close>.\<close>

definition set_buffer ::
  "'b option \<Rightarrow> ('b, 'a) AudioModule_scheme \<Rightarrow> ('b, 'a) AudioModule_scheme" where
  "set_buffer inbuff m = m\<lparr>buff := inbuff\<rparr>"

text \<open>
  \<^verbatim>\<open>AudioModule::get_buffer\<close>: \<^verbatim>\<open>return std::move(this->buff)\<close>. The result is the
  pointer that was held and the module after the move, which holds \<^verbatim>\<open>nullptr\<close>.
\<close>

definition get_buffer ::
  "('b, 'a) AudioModule_scheme \<Rightarrow> 'b option \<times> ('b, 'a) AudioModule_scheme" where
  "get_buffer m = (buff m, m\<lparr>buff := None\<rparr>)"

text \<open>
  \<^verbatim>\<open>AudioModule::create_buffer(int channels)\<close> builds
  \<^verbatim>\<open>AudioBuffer(this->info.out_buffer, channels)\<close>, and
  \<^verbatim>\<open>AudioModule::create_buffer(int size, int channels)\<close> builds \<^verbatim>\<open>AudioBuffer(size, channels)\<close>.
  A caller that writes \<^verbatim>\<open>create_buffer()\<close> passes the default argument of the first
  overload. The default is declared in the missing header; being a default argument
  it is a constant that cannot read the module. It is the parameter \<open>dc\<close> of every
  function below that makes such a call.
\<close>

definition create_buffer :: "nat \<Rightarrow> ('b, 'a) AudioModule_scheme \<Rightarrow> AudioBuffer" where
  "create_buffer channels m = AudioBuffer_new (out_buffer (info m)) channels"

definition create_buffer_sized :: "nat \<Rightarrow> nat \<Rightarrow> AudioBuffer" where
  "create_buffer_sized sz channels = AudioBuffer_new sz channels"

text \<open>\<^verbatim>\<open>AudioModule::set_forward\<close>: \<^verbatim>\<open>this->forward = mod\<close>.\<close>

definition set_forward ::
  "addr option \<Rightarrow> ('b, 'a) AudioModule_scheme \<Rightarrow> ('b, 'a) AudioModule_scheme" where
  "set_forward modp m = m\<lparr>forward := modp\<rparr>"

text \<open>
  \<^verbatim>\<open>set_chain_info\<close> is an inline member of the missing header; \<^verbatim>\<open>bind\<close> uses it to
  "set the chain info in the back to ours", that is, to store the pointer.
\<close>

definition set_chain_info ::
  "addr option \<Rightarrow> ('b, 'a) AudioModule_scheme \<Rightarrow> ('b, 'a) AudioModule_scheme" where
  "set_chain_info c m = m\<lparr>chain := c\<rparr>"

text \<open>
  \<^verbatim>\<open>AudioModule::bind(AudioModule* mod)\<close> on a store of modules. \<open>self\<close> is the address
  of \<^verbatim>\<open>this\<close> and \<open>modp\<close> the pointer \<^verbatim>\<open>mod\<close>. The three statements run in the order of
  the source, each on the store the one before left, so that \<^verbatim>\<open>mod == this\<close> is covered.
  The call \<^verbatim>\<open>mod->set_forward(this)\<close> is \<^verbatim>\<open>AudioModule::set_forward\<close>; a Mix-up has its own
  \<open>ModuleMixUp_set_forward\<close>. The result is the returned pointer and the new store.
\<close>

type_synonym ('b, 'a) module_store = "addr \<rightharpoonup> ('b, 'a) AudioModule_scheme"

definition AudioModule_bind ::
  "addr \<Rightarrow> addr option \<Rightarrow> ('b, 'a) module_store \<Rightarrow>
     error + (addr option \<times> ('b, 'a) module_store)" where
  "AudioModule_bind self modp h =
     (case h self of
        None \<Rightarrow> Inl NullPointer
      | Some this_m \<Rightarrow>
          let h1 = h(self \<mapsto> this_m\<lparr>backward := modp\<rparr>) in
          (case modp of
             None \<Rightarrow> Inl NullPointer
           | Some b \<Rightarrow>
               (case h1 b of
                  None \<Rightarrow> Inl NullPointer
                | Some mb \<Rightarrow>
                    let h2 = h1(b \<mapsto> set_forward (Some self) mb) in
                    (case (h2 self, h2 b) of
                       (Some this2, Some mb2) \<Rightarrow>
                         Inr (modp, h2(b \<mapsto> set_chain_info (chain this2) mb2))
                     | _ \<Rightarrow> Inl NullPointer))))"

subsection \<open>The fundamental oscillators\<close>

text \<open>
  The members \<^verbatim>\<open>frequency\<close>, \<^verbatim>\<open>phase\<close> and \<^verbatim>\<open>sample_rate\<close> that the four \<^verbatim>\<open>process()\<close>
  methods read are declared in \<^verbatim>\<open>fund_oscillator.hpp\<close> (not among the sources); they are
  fields of the record.
\<close>

record 'b Oscillator = "'b AudioModule" +
  frequency :: real
  phase :: real
  sample_rate :: real

definition TWO_PI :: real where
  "TWO_PI = 2.0 * pi"

text \<open>\<^verbatim>\<open>modf(x, &placeholder)\<close>: the fractional part of \<open>x\<close>, with the sign of \<open>x\<close>.\<close>

definition modf :: "real \<Rightarrow> real" where
  "modf x = x - of_int (if 0 \<le> x then \<lfloor>x\<rfloor> else \<lceil>x\<rceil>)"

definition sine_wave :: "real \<Rightarrow> real \<Rightarrow> real \<Rightarrow> real" where
  "sine_wave f sr ph = sin (TWO_PI * f * ph / sr)"

definition square_wave :: "real \<Rightarrow> real \<Rightarrow> real \<Rightarrow> real" where
  "square_wave f sr ph = (if modf (f * ph / sr) < 0.5 then 1.0 else - 1.0)"

definition sawtooth_wave :: "real \<Rightarrow> real \<Rightarrow> real \<Rightarrow> real" where
  "sawtooth_wave f sr ph = (2.0 * modf (f * ph / sr + 0.5)) - 1.0"

definition triangle_wave :: "real \<Rightarrow> real \<Rightarrow> real \<Rightarrow> real" where
  "triangle_wave f sr ph =
     (let temp = modf (f * ph / sr) in
      if temp < 0.25 then temp * 4.0
      else if temp > 0.75 then (temp - 1.0) * 4.0
      else (0.5 - temp) * 4.0)"

text \<open>
  The loop shared by the four methods:
  \<^verbatim>\<open>for (iter = buff->ibegin(); iter.get_index() < buff->size(); ++iter) { *iter = w; phase++; }\<close>
  with \<open>i\<close> the index of the cursor, \<open>xs\<close> the cells and \<open>ph\<close> the phase.
\<close>

function osc_fill :: "(real \<Rightarrow> real) \<Rightarrow> nat \<Rightarrow> real list \<Rightarrow> real \<Rightarrow> real list \<times> real" where
  "osc_fill wave i xs ph =
     (if i < length xs then osc_fill wave (Suc i) (xs[i := wave ph]) (ph + 1)
      else (xs, ph))"
  by pat_completeness auto
termination
  by (relation "measure (\<lambda>(wave, i, xs, ph). length xs - i)") auto

declare osc_fill.simps [simp del]

text \<open>
  Each \<^verbatim>\<open>process()\<close> starts with \<^verbatim>\<open>this->set_buffer(this->create_buffer())\<close> and then fills
  \<^verbatim>\<open>this->buff\<close>.
\<close>

definition osc_process ::
  "(real \<Rightarrow> real \<Rightarrow> real \<Rightarrow> real) \<Rightarrow> nat \<Rightarrow>
     (AudioBuffer, 'a) Oscillator_scheme \<Rightarrow> (AudioBuffer, 'a) Oscillator_scheme" where
  "osc_process wave dc m =
     (let m1 = set_buffer (Some (create_buffer dc m)) m in
      case buff m1 of
        None \<Rightarrow> m1
      | Some b \<Rightarrow>
          (case osc_fill (wave (frequency m1) (sample_rate m1)) 0 (buf_samples b) (phase m1) of
             (xs, ph) \<Rightarrow> m1\<lparr>buff := Some (b\<lparr>buf_samples := xs\<rparr>), phase := ph\<rparr>))"

definition SineOscillator_process ::
  "nat \<Rightarrow> (AudioBuffer, 'a) Oscillator_scheme \<Rightarrow> (AudioBuffer, 'a) Oscillator_scheme" where
  "SineOscillator_process dc m = osc_process sine_wave dc m"

definition SquareOscillator_process ::
  "nat \<Rightarrow> (AudioBuffer, 'a) Oscillator_scheme \<Rightarrow> (AudioBuffer, 'a) Oscillator_scheme" where
  "SquareOscillator_process dc m = osc_process square_wave dc m"

definition SawtoothOscillator_process ::
  "nat \<Rightarrow> (AudioBuffer, 'a) Oscillator_scheme \<Rightarrow> (AudioBuffer, 'a) Oscillator_scheme" where
  "SawtoothOscillator_process dc m = osc_process sawtooth_wave dc m"

definition TriangleOscillator_process ::
  "nat \<Rightarrow> (AudioBuffer, 'a) Oscillator_scheme \<Rightarrow> (AudioBuffer, 'a) Oscillator_scheme" where
  "TriangleOscillator_process dc m = osc_process triangle_wave dc m"

subsection \<open>Mixdown\<close>

text \<open>
  \<^verbatim>\<open>ModuleMixDown\<close> keeps \<^verbatim>\<open>in\<close>, the pointers to its input modules, and \<^verbatim>\<open>buffs\<close>, the
  blocks it has collected (\<open>in\<close> is a keyword here, hence \<open>in_mods\<close>).
\<close>

record 'b ModuleMixDown = "'b AudioModule" +
  in_mods :: "addr option list"
  buffs :: "'b option list"

text \<open>\<^verbatim>\<open>ModuleMixDown::bind\<close>: \<^verbatim>\<open>this->in.push_back(mod)\<close>, and nothing else.\<close>

definition ModuleMixDown_bind ::
  "addr option \<Rightarrow> ('b, 'a) ModuleMixDown_scheme \<Rightarrow> ('b, 'a) ModuleMixDown_scheme" where
  "ModuleMixDown_bind modp md = md\<lparr>in_mods := in_mods md @ [modp]\<rparr>"

text \<open>
  The inner loop of \<^verbatim>\<open>ModuleMixDown::process\<close>:
  \<^verbatim>\<open>for (i = 0; i < b->size(); i++) fbuff->at(i) += b->at(i);\<close>
  An index past the end of \<open>fbuff\<close> is \<open>OutOfRange\<close>.
\<close>

function add_block_from :: "nat \<Rightarrow> AudioBuffer \<Rightarrow> AudioBuffer \<Rightarrow> error + AudioBuffer" where
  "add_block_from i b fbuff =
     (if i < buf_size b then
        (if i < buf_size fbuff then
           add_block_from (Suc i) b
             (fbuff\<lparr>buf_samples := (buf_samples fbuff)[i := buf_samples fbuff ! i + buf_samples b ! i]\<rparr>)
         else Inl OutOfRange)
      else Inr fbuff)"
  by pat_completeness auto
termination
  by (relation "measure (\<lambda>(i, b, fbuff). buf_size b - i)") auto

declare add_block_from.simps [simp del]

text \<open>The outer loop \<^verbatim>\<open>for (auto &b : this->buffs)\<close>; a null entry cannot be read.\<close>

fun add_blocks :: "AudioBuffer option list \<Rightarrow> AudioBuffer \<Rightarrow> error + AudioBuffer" where
  "add_blocks [] fbuff = Inr fbuff"
| "add_blocks (None # bs) fbuff = Inl NullPointer"
| "add_blocks (Some b # bs) fbuff =
     (case add_block_from 0 b fbuff of
        Inl e \<Rightarrow> Inl e
      | Inr fbuff' \<Rightarrow> add_blocks bs fbuff')"

text \<open>
  \<^verbatim>\<open>ModuleMixDown::process\<close>: a new block from \<^verbatim>\<open>create_buffer()\<close>, every block of
  \<^verbatim>\<open>buffs\<close> added into it, then \<^verbatim>\<open>set_buffer\<close>. \<^verbatim>\<open>buffs\<close> is left as it was: the method has
  no statement that removes an entry.
\<close>

definition ModuleMixDown_process ::
  "nat \<Rightarrow> (AudioBuffer, 'a) ModuleMixDown_scheme \<Rightarrow>
     error + (AudioBuffer, 'a) ModuleMixDown_scheme" where
  "ModuleMixDown_process dc md =
     (case add_blocks (buffs md) (create_buffer dc md) of
        Inl e \<Rightarrow> Inl e
      | Inr fbuff \<Rightarrow> Inr (set_buffer (Some fbuff) md))"

text \<open>
  The loop of \<^verbatim>\<open>ModuleMixDown::meta_process\<close> over \<^verbatim>\<open>this->in\<close>:
  \<^verbatim>\<open>mod->process(); this->buffs.push_back(std::move(mod->get_buffer()));\<close>
  The input modules live in a store \<open>h\<close>; the Mixdown itself is kept apart from it.
  \<^verbatim>\<open>process()\<close> is virtual: \<open>proc\<close> is the method of the input's class, acting on that
  one object as every \<^verbatim>\<open>process()\<close> of the sources does. \<^verbatim>\<open>get_buffer\<close> is
  \<^verbatim>\<open>AudioModule::get_buffer\<close>.
\<close>

fun mixdown_collect ::
  "(('b, 'a) AudioModule_scheme \<Rightarrow> error + ('b, 'a) AudioModule_scheme) \<Rightarrow>
     addr option list \<Rightarrow> ('b, 'a) module_store \<Rightarrow> 'b option list \<Rightarrow>
     error + (('b, 'a) module_store \<times> 'b option list)" where
  "mixdown_collect proc [] h bs = Inr (h, bs)"
| "mixdown_collect proc (None # qs) h bs = Inl NullPointer"
| "mixdown_collect proc (Some q # qs) h bs =
     (case h q of
        None \<Rightarrow> Inl NullPointer
      | Some m \<Rightarrow>
          (case proc m of
             Inl e \<Rightarrow> Inl e
           | Inr m1 \<Rightarrow>
               (case get_buffer m1 of
                  (b, m2) \<Rightarrow> mixdown_collect proc qs (h(q \<mapsto> m2)) (bs @ [b]))))"

text \<open>\<^verbatim>\<open>ModuleMixDown::meta_process\<close>: the loop, then \<^verbatim>\<open>this->process()\<close>.\<close>

definition ModuleMixDown_meta_process ::
  "((AudioBuffer, 'a) AudioModule_scheme \<Rightarrow> error + (AudioBuffer, 'a) AudioModule_scheme) \<Rightarrow>
     nat \<Rightarrow> (AudioBuffer, 'c) ModuleMixDown_scheme \<Rightarrow> (AudioBuffer, 'a) module_store \<Rightarrow>
     error + ((AudioBuffer, 'c) ModuleMixDown_scheme \<times> (AudioBuffer, 'a) module_store)" where
  "ModuleMixDown_meta_process proc dc md h =
     (case mixdown_collect proc (in_mods md) h (buffs md) of
        Inl e \<Rightarrow> Inl e
      | Inr (h', bs) \<Rightarrow>
          (case ModuleMixDown_process dc (md\<lparr>buffs := bs\<rparr>) of
             Inl e \<Rightarrow> Inl e
           | Inr md' \<Rightarrow> Inr (md', h')))"

subsection \<open>Mix-up\<close>

text \<open>
  A store of blocks for the one place where copies of a block coexist. A
  \<^verbatim>\<open>unique_ptr<AudioBuffer>\<close> is an address; cell \<open>a\<close> of the store is the block allocated
  at \<open>a\<close>. \<^verbatim>\<open>std::make_unique\<close> allocates at the first address never used.
\<close>

type_synonym block_store = "AudioBuffer option list"

definition block_at :: "block_store \<Rightarrow> addr \<Rightarrow> AudioBuffer option" where
  "block_at s a = (if a < length s then s ! a else None)"

definition make_unique :: "block_store \<Rightarrow> AudioBuffer \<Rightarrow> addr \<times> block_store" where
  "make_unique s b = (length s, s @ [Some b])"

text \<open>A write \<^verbatim>\<open>p->at(i) = x\<close> through the pointer \<open>p\<close>.\<close>

definition block_write :: "block_store \<Rightarrow> addr \<Rightarrow> nat \<Rightarrow> real \<Rightarrow> error + block_store" where
  "block_write s p i x =
     (case block_at s p of
        None \<Rightarrow> Inl NullPointer
      | Some b \<Rightarrow>
          if i < buf_size b
          then Inr (s[p := Some (b\<lparr>buf_samples := (buf_samples b)[i := x]\<rparr>)])
          else Inl OutOfRange)"

record 'b ModuleMixUp = "'b AudioModule" +
  out_mods :: "addr option list"

text \<open>\<^verbatim>\<open>ModuleMixUp::set_forward\<close>: \<^verbatim>\<open>this->out.push_back(mod)\<close>.\<close>

definition ModuleMixUp_set_forward ::
  "addr option \<Rightarrow> ('b, 'a) ModuleMixUp_scheme \<Rightarrow> ('b, 'a) ModuleMixUp_scheme" where
  "ModuleMixUp_set_forward modp m = m\<lparr>out_mods := out_mods m @ [modp]\<rparr>"

text \<open>
  \<^verbatim>\<open>std::copy(first, last, d_first)\<close> from the cells of \<open>src\<close> to the cells of \<open>dst\<close>,
  one cell at a time from index \<open>i\<close>; writing past the end of \<open>dst\<close> is \<open>OutOfRange\<close>.
\<close>

function std_copy_from :: "nat \<Rightarrow> real list \<Rightarrow> real list \<Rightarrow> error + real list" where
  "std_copy_from i src dst =
     (if i < length src then
        (if i < length dst then std_copy_from (Suc i) src (dst[i := src ! i])
         else Inl OutOfRange)
      else Inr dst)"
  by pat_completeness auto
termination
  by (relation "measure (\<lambda>(i, src, dst). length src - i)") auto

declare std_copy_from.simps [simp del]

text \<open>
  \<^verbatim>\<open>ModuleMixUp::get_buffer\<close>: \<^verbatim>\<open>tbuff = this->create_buffer()\<close>, then
  \<^verbatim>\<open>std::copy(this->buff->begin(), this->buff->end(), tbuff->begin())\<close>, then
  \<^verbatim>\<open>return std::move(tbuff)\<close>. \<^verbatim>\<open>this->buff\<close> is read, never moved from: the module is
  returned as it was. The result is the returned pointer, the store and the module.
\<close>

definition ModuleMixUp_get_buffer ::
  "nat \<Rightarrow> block_store \<Rightarrow> (addr, 'a) ModuleMixUp_scheme \<Rightarrow>
     error + (addr option \<times> block_store \<times> (addr, 'a) ModuleMixUp_scheme)" where
  "ModuleMixUp_get_buffer dc s m =
     (case make_unique s (create_buffer dc m) of
        (tbuff, s1) \<Rightarrow>
          (case buff m of
             None \<Rightarrow> Inl NullPointer
           | Some r \<Rightarrow>
               (case (block_at s1 r, block_at s1 tbuff) of
                  (Some src, Some dst) \<Rightarrow>
                    (case std_copy_from 0 (buf_samples src) (buf_samples dst) of
                       Inl e \<Rightarrow> Inl e
                     | Inr xs \<Rightarrow>
                         Inr (Some tbuff, s1[tbuff := Some (dst\<lparr>buf_samples := xs\<rparr>)], m))
                | _ \<Rightarrow> Inl NullPointer)))"

subsection \<open>Counter and LatencyModule\<close>

text \<open>
  The counters are C++ \<^verbatim>\<open>int\<close>, the times \<^verbatim>\<open>int64_t\<close>; both are integers here, and the
  two cases in which \<^verbatim>\<open>/\<close> has no value in C++ (a zero divisor, and the quotient
  \<open>- 2 ^ 63 / - 1\<close>) are errors. \<^verbatim>\<open>/\<close> truncates towards zero (\<open>sdiv\<close>). The member
  \<^verbatim>\<open>timer\<close> (a \<^verbatim>\<open>ChainTimer\<close>, declared in a missing header) is left out.
\<close>

record 'b Counter = "'b AudioModule" +
  m_processed :: int
  m_samples :: int

record 'b LatencyModule = "'b Counter" +
  start_time :: int
  operation_time :: int
  operation_latency :: int
  total_operation_time :: int
  total_operation_latency :: int

text \<open>\<^verbatim>\<open>Counter::reset\<close> and \<^verbatim>\<open>Counter::processed\<close>.\<close>

definition Counter_reset :: "('b, 'a) Counter_scheme \<Rightarrow> ('b, 'a) Counter_scheme" where
  "Counter_reset m = m\<lparr>m_processed := 0, m_samples := 0\<rparr>"

definition processed :: "('b, 'a) Counter_scheme \<Rightarrow> int" where
  "processed m = m_processed m"

definition int64_div :: "int \<Rightarrow> int \<Rightarrow> error + int" where
  "int64_div a b =
     (if b = 0 then Inl DivisionByZero
      else if a = - (2 ^ 63) \<and> b = - 1 then Inl SignedOverflow
      else Inr (a sdiv b))"

text \<open>
  \<^verbatim>\<open>LatencyModule::average_time\<close> is \<^verbatim>\<open>total_operation_time / processed()\<close> and
  \<^verbatim>\<open>LatencyModule::average_latency\<close> is \<^verbatim>\<open>total_operation_latency / processed()\<close>.
\<close>

definition average_time :: "('b, 'a) LatencyModule_scheme \<Rightarrow> error + int" where
  "average_time m = int64_div (total_operation_time m) (processed m)"

definition average_latency :: "('b, 'a) LatencyModule_scheme \<Rightarrow> error + int" where
  "average_latency m = int64_div (total_operation_latency m) (processed m)"

text \<open>
  A \<^verbatim>\<open>LatencyModule\<close> as its default member initialisers leave it (every counter and
  time \<^verbatim>\<open>= 0\<close>), over the \<^verbatim>\<open>AudioModule\<close> part \<open>base\<close>.
\<close>

definition LatencyModule_new :: "'b AudioModule \<Rightarrow> 'b LatencyModule" where
  "LatencyModule_new base =
     \<lparr>backward = backward base, forward = forward base, chain = chain base,
      info = info base, buff = buff base,
      m_processed = 0, m_samples = 0,
      start_time = 0, operation_time = 0, operation_latency = 0,
      total_operation_time = 0, total_operation_latency = 0\<rparr>"

text \<open>
  Modelled from the spec: \<^verbatim>\<open>Counter::process\<close> and \<^verbatim>\<open>LatencyModule::meta_process\<close> are
  defined in \<^verbatim>\<open>meta_audio.cpp\<close>, which is not among the sources, and the specification
  only names the latency instrumentation (section 3). The model follows the
  documentation of their declarations in \<^verbatim>\<open>meta_audio.hpp\<close>. \<^verbatim>\<open>Counter::process\<close> "counts
  how many samples we encounter, and how many times we have been called": it adds
  the size \<open>n\<close> of the block to \<^verbatim>\<open>m_samples\<close> and one to \<^verbatim>\<open>m_processed\<close>.
  \<^verbatim>\<open>LatencyModule::meta_process\<close> times the meta process of the back modules: with
  \<open>dt\<close> the time it took and \<open>lat\<close> its latency, both measured on the system clock,
  it stores them as the time and latency of the last operation, adds them to the two
  sums, and counts the cycle once (\<^verbatim>\<open>LatencyModule::process\<close> is empty so that the
  count is not taken twice). A sum or count outside the range of its C++ type is
  \<open>SignedOverflow\<close>.
\<close>

definition int_fits :: "nat \<Rightarrow> int \<Rightarrow> bool" where
  "int_fits w x = (- (2 ^ (w - 1)) \<le> x \<and> x < 2 ^ (w - 1))"

definition Counter_process ::
  "nat \<Rightarrow> ('b, 'a) Counter_scheme \<Rightarrow> error + ('b, 'a) Counter_scheme" where
  "Counter_process n m =
     (if int_fits 32 (m_samples m + int n) \<and> int_fits 32 (m_processed m + 1)
      then Inr (m\<lparr>m_samples := m_samples m + int n, m_processed := m_processed m + 1\<rparr>)
      else Inl SignedOverflow)"

definition LatencyModule_meta_process ::
  "int \<Rightarrow> int \<Rightarrow> nat \<Rightarrow> ('b, 'a) LatencyModule_scheme \<Rightarrow>
     error + ('b, 'a) LatencyModule_scheme" where
  "LatencyModule_meta_process dt lat n m =
     (if int_fits 64 (total_operation_time m + dt)
         \<and> int_fits 64 (total_operation_latency m + lat)
      then Counter_process n
             (m\<lparr>operation_time := dt, operation_latency := lat,
                total_operation_time := total_operation_time m + dt,
                total_operation_latency := total_operation_latency m + lat\<rparr>)
      else Inl SignedOverflow)"

text \<open>
  What an owner does to a \<^verbatim>\<open>LatencyModule\<close> between two reads of the averages: it
  completes processing cycles, each with its measured time, latency and block size,
  and it may call \<^verbatim>\<open>Counter::reset\<close>. \<open>latency_run\<close> applies such events in order.
\<close>

datatype latency_event = Cycle int int nat | Reset

fun latency_run ::
  "latency_event list \<Rightarrow> ('b, 'a) LatencyModule_scheme \<Rightarrow>
     error + ('b, 'a) LatencyModule_scheme" where
  "latency_run [] m = Inr m"
| "latency_run (Cycle dt lat n # evs) m =
     (case LatencyModule_meta_process dt lat n m of
        Inl e \<Rightarrow> Inl e
      | Inr m' \<Rightarrow> latency_run evs m')"
| "latency_run (Reset # evs) m = latency_run evs (Counter_reset m)"

section \<open>The time and envelope sequencer\<close>

text \<open>
  Modelled from the spec: the envelope classes (\<^verbatim>\<open>SetValue\<close>, \<^verbatim>\<open>ConstantEnvelope\<close>,
  \<^verbatim>\<open>ChainEnvelope\<close>) and the sample clock (\<^verbatim>\<open>ChainTimer\<close>) are defined in \<^verbatim>\<open>envelope.hpp\<close>,
  \<^verbatim>\<open>envelope.cpp\<close> and \<^verbatim>\<open>chrono.hpp\<close>, none of which is among the sources; only their
  tests are. Everything in this section follows sections 3 and 4.4 of the
  specification; where the tests of \<^verbatim>\<open>envelope_test.cpp\<close> settle a point the
  specification leaves open or words otherwise, the text says so.

  The sample clock is a sample count and a sample rate, and converts the count to
  nanoseconds. The specification gives no formula; here one sample lasts
  \<open>nano div rate\<close> nanoseconds, a whole number.
\<close>

definition nano :: int where
  "nano = 1000000000"

record SampleClock =
  clk_sample :: nat
  clk_rate :: nat

definition clock_time :: "SampleClock \<Rightarrow> int" where
  "clock_time clk = int (clk_sample clk) * (nano div int (clk_rate clk))"

definition clock_advance :: "SampleClock \<Rightarrow> SampleClock" where
  "clock_advance clk = clk\<lparr>clk_sample := Suc (clk_sample clk)\<rparr>"

text \<open>
  Modelled from the spec: an envelope segment is start and stop time in nanoseconds
  (stop time \<open>- 1\<close> meaning that it never ends) and start and stop value. Of the
  segment types of section 4.4 the two that the properties below are about:
  Constant, "value = start_value for all t", and Step, "value = start_value for
  t < stop_time, else stop_value".

  For Step the tests of \<^verbatim>\<open>SetValue\<close> in \<^verbatim>\<open>envelope_test.cpp\<close> fix what the comparison is
  when the stop time lies between two samples. \<^verbatim>\<open>SetValueTest.ValueOffset\<close> (stop time
  348.6 ms, 1000 samples a second) asserts the start value up to index 347 and the
  stop value from index 348 on, although sample 348 is at 348 ms;
  \<^verbatim>\<open>SetValueTest.Value\<close> (stop time 1 s) asserts the start value for the samples 0 to
  999 and the stop value from sample 1000 on. So a sample has the start value when
  it ends no later than the stop time, that is, when the time of the next sample is
  at most the stop time, and the stop value otherwise. For a stop time that is the
  time of a sample this is the rule "t < stop_time" (\<open>step_rule_on_sample\<close> below).
  The segment reads the clock it shares with the sequence.
\<close>

datatype segment_kind = Constant | Step

record Segment =
  seg_kind :: segment_kind
  seg_start_time :: int
  seg_stop_time :: int
  start_value :: real
  stop_value :: real

definition segment_value :: "Segment \<Rightarrow> SampleClock \<Rightarrow> real" where
  "segment_value seg clk =
     (case seg_kind seg of
        Constant \<Rightarrow> start_value seg
      | Step \<Rightarrow>
          if clock_time (clock_advance clk) \<le> seg_stop_time seg
          then start_value seg else stop_value seg)"

text \<open>
  Modelled from the spec: an envelope sequence is the ordered list of segments, a
  cursor to the current one, and the clock. One sample of its \<^verbatim>\<open>process()\<close>, in the
  four steps of section 4.4: read the clock, evaluate the current segment at that
  position, advance the clock by one sample, and switch the cursor to the next segment
  if the advanced time has reached the stop time of the current one and a next
  segment exists. A segment that never ends keeps the cursor. With no current
  segment the sample is silence (section 7, exhausted sequence).
\<close>

record Sequence =
  segments :: "Segment list"
  cursor :: nat
  clock :: SampleClock

definition seq_sample :: "Sequence \<Rightarrow> real \<times> Sequence" where
  "seq_sample sq =
     (let clk = clock sq;
          v = (if cursor sq < length (segments sq)
               then segment_value (segments sq ! cursor sq) clk else 0);
          clk' = clock_advance clk;
          t' = clock_time clk';
          cur' = (if cursor sq < length (segments sq)
                    \<and> seg_stop_time (segments sq ! cursor sq) \<noteq> - 1
                    \<and> seg_stop_time (segments sq ! cursor sq) \<le> t'
                    \<and> Suc (cursor sq) < length (segments sq)
                  then Suc (cursor sq) else cursor sq)
      in (v, sq\<lparr>cursor := cur', clock := clk'\<rparr>))"

text \<open>\<^verbatim>\<open>process()\<close> fills one block of \<open>n\<close> samples, sample by sample.\<close>

fun seq_fill :: "nat \<Rightarrow> Sequence \<Rightarrow> real list \<times> Sequence" where
  "seq_fill 0 sq = ([], sq)"
| "seq_fill (Suc n) sq =
     (case seq_sample sq of
        (v, sq1) \<Rightarrow> (case seq_fill n sq1 of (vs, sq2) \<Rightarrow> (v # vs, sq2)))"

definition Sequence_process :: "nat \<Rightarrow> Sequence \<Rightarrow> real list \<times> Sequence" where
  "Sequence_process block_size sq = seq_fill block_size sq"

section \<open>Notions used to state the properties\<close>

text \<open>
  A block "sized by the module's info": as many frames as \<^verbatim>\<open>info.out_buffer\<close>, the given
  number of channels, and one cell for every frame of every channel.
\<close>

definition sized_by_info :: "nat \<Rightarrow> ModuleInfo \<Rightarrow> AudioBuffer option \<Rightarrow> bool" where
  "sized_by_info channels i p =
     (case p of
        None \<Rightarrow> False
      | Some b \<Rightarrow> buf_frames b = out_buffer i \<and> buf_channels b = channels
                  \<and> buf_size b = out_buffer i * channels)"

text \<open>
  A module holds a block "as the shared chain descriptor declares": the \<^verbatim>\<open>ChainInfo\<close>
  that \<^verbatim>\<open>this->chain\<close> points to gives the channel count and the frame count of the
  held block.
\<close>

definition block_as_declared ::
  "chain_store \<Rightarrow> (AudioBuffer, 'a) AudioModule_scheme \<Rightarrow> bool" where
  "block_as_declared cs m =
     (case chain m of
        None \<Rightarrow> False
      | Some c \<Rightarrow>
          (case cs c of
             None \<Rightarrow> False
           | Some ci \<Rightarrow>
               (case buff m of
                  None \<Rightarrow> False
                | Some b \<Rightarrow>
                    buf_channels b = ci_channels ci \<and> buf_frames b = ci_buffer_size ci)))"

text \<open>The block every sample of which equals \<open>v\<close>.\<close>

definition const_block :: "nat \<Rightarrow> nat \<Rightarrow> real \<Rightarrow> AudioBuffer" where
  "const_block frames channels v =
     \<lparr>buf_frames = frames, buf_channels = channels,
      buf_samples = replicate (frames * channels) v\<rparr>"

text \<open>What an entry of \<^verbatim>\<open>buffs\<close> contributes to cell \<open>j\<close> of the sum.\<close>

definition block_cell :: "AudioBuffer option \<Rightarrow> nat \<Rightarrow> real" where
  "block_cell e j =
     (case e of None \<Rightarrow> 0 | Some b \<Rightarrow> if j < buf_size b then buf_samples b ! j else 0)"

text \<open>
  The number of cycles completed since the last reset, counting on from \<open>n\<close> cycles
  before the first event.
\<close>

fun cycles_since_reset :: "nat \<Rightarrow> latency_event list \<Rightarrow> nat" where
  "cycles_since_reset n [] = n"
| "cycles_since_reset n (Cycle dt lat k # evs) = cycles_since_reset (Suc n) evs"
| "cycles_since_reset n (Reset # evs) = cycles_since_reset 0 evs"

text \<open>
  The clock \<open>i\<close> samples after its current position, and the time of that sample.
\<close>

definition clock_after :: "SampleClock \<Rightarrow> nat \<Rightarrow> SampleClock" where
  "clock_after clk i = clk\<lparr>clk_sample := clk_sample clk + i\<rparr>"

definition sample_time :: "SampleClock \<Rightarrow> nat \<Rightarrow> int" where
  "sample_time clk i = clock_time (clock_after clk i)"

section \<open>Lemmas about the loops\<close>

subsection \<open>The oscillator loop\<close>

lemma osc_fill_length: "length (fst (osc_fill wave i xs ph)) = length xs"
proof (induction wave i xs ph rule: osc_fill.induct)
  case (1 wave i xs ph)
  show ?case
  proof (cases "i < length xs")
    case True
    with 1 show ?thesis by (simp add: osc_fill.simps [of wave i xs ph])
  next
    case False
    then show ?thesis by (simp add: osc_fill.simps [of wave i xs ph])
  qed
qed

lemma osc_process_block:
  "\<exists>b. buff (osc_process wave dc m) = Some b
       \<and> buf_frames b = out_buffer (info m) \<and> buf_channels b = dc
       \<and> buf_size b = out_buffer (info m) * dc"
proof -
  obtain xs ph where f: "osc_fill (wave (frequency m) (sample_rate m)) 0
      (replicate (out_buffer (info m) * dc) 0) (phase m) = (xs, ph)"
    by (cases "osc_fill (wave (frequency m) (sample_rate m)) 0
      (replicate (out_buffer (info m) * dc) 0) (phase m)") 
  have "length xs = out_buffer (info m) * dc"
    using osc_fill_length [of "wave (frequency m) (sample_rate m)" 0 "replicate (out_buffer (info m) * dc) 0" "phase m"] f
    by simp
  then show ?thesis
    using f by (simp add: osc_process_def set_buffer_def create_buffer_def AudioBuffer_new_def buf_size_def)
qed

lemma osc_process_sized: "sized_by_info dc (info m) (buff (osc_process wave dc m))"
  using osc_process_block [of wave dc m] by (auto simp: sized_by_info_def)

lemma osc_process_chain:
  "buff (osc_process wave dc (m\<lparr>chain := c\<rparr>)) = buff (osc_process wave dc m)"
  by (simp add: osc_process_def set_buffer_def create_buffer_def split: prod.splits)


subsection \<open>The summing loops of Mixdown\<close>

lemma add_block_from_ok:
  "buf_size b \<le> buf_size f \<Longrightarrow>
     \<exists>f'. add_block_from i b f = Inr f'
        \<and> buf_frames f' = buf_frames f \<and> buf_channels f' = buf_channels f
        \<and> length (buf_samples f') = length (buf_samples f)
        \<and> (\<forall>j < length (buf_samples f). buf_samples f' ! j =
              (if i \<le> j \<and> j < buf_size b then buf_samples f ! j + buf_samples b ! j
               else buf_samples f ! j))"
proof (induction i b f rule: add_block_from.induct)
  case (1 i b fbuff)
  show ?case
  proof (cases "i < buf_size b")
    case False
    then show ?thesis by (simp add: add_block_from.simps [of i b fbuff])
  next
    case True
    let ?g = "fbuff\<lparr>buf_samples := (buf_samples fbuff)[i := buf_samples fbuff ! i + buf_samples b ! i]\<rparr>"
    from True 1(2) have lt: "i < buf_size fbuff" by simp
    have sz: "buf_size b \<le> buf_size ?g" using 1(2) by (simp add: buf_size_def)
    from 1(1) [OF True lt sz] obtain f' where
      r: "add_block_from (Suc i) b ?g = Inr f'"
      and d: "buf_frames f' = buf_frames ?g" "buf_channels f' = buf_channels ?g"
        "length (buf_samples f') = length (buf_samples ?g)"
      and c: "\<forall>j < length (buf_samples ?g). buf_samples f' ! j =
              (if Suc i \<le> j \<and> j < buf_size b then buf_samples ?g ! j + buf_samples b ! j
               else buf_samples ?g ! j)"
      by blast
    have "add_block_from i b fbuff = Inr f'"
      using True lt r by (simp add: add_block_from.simps [of i b fbuff])
    moreover have "\<forall>j < length (buf_samples fbuff). buf_samples f' ! j =
              (if i \<le> j \<and> j < buf_size b then buf_samples fbuff ! j + buf_samples b ! j
               else buf_samples fbuff ! j)"
    proof (intro allI impI)
      fix j assume j: "j < length (buf_samples fbuff)"
      show "buf_samples f' ! j =
              (if i \<le> j \<and> j < buf_size b then buf_samples fbuff ! j + buf_samples b ! j
               else buf_samples fbuff ! j)"
        using c j True lt by (cases "j = i") (auto simp: buf_size_def)
    qed
    ultimately show ?thesis using d by simp
  qed
qed

lemma add_blocks_ok:
  "\<forall>e \<in> set bs. \<exists>b. e = Some b \<and> buf_size b \<le> buf_size f \<Longrightarrow>
     \<exists>f'. add_blocks bs f = Inr f'
        \<and> buf_frames f' = buf_frames f \<and> buf_channels f' = buf_channels f
        \<and> length (buf_samples f') = length (buf_samples f)
        \<and> (\<forall>j < length (buf_samples f). buf_samples f' ! j =
              buf_samples f ! j + (\<Sum>e\<leftarrow>bs. block_cell e j))"
proof (induction bs arbitrary: f)
  case Nil
  then show ?case by simp
next
  case (Cons e bs)
  from Cons.prems obtain b where e: "e = Some b" and le: "buf_size b \<le> buf_size f"
    by auto
  from add_block_from_ok [OF le, of 0] obtain g where
    g: "add_block_from 0 b f = Inr g"
    and gd: "buf_frames g = buf_frames f" "buf_channels g = buf_channels f"
      "length (buf_samples g) = length (buf_samples f)"
    and gc: "\<forall>j < length (buf_samples f). buf_samples g ! j =
              (if 0 \<le> j \<and> j < buf_size b then buf_samples f ! j + buf_samples b ! j
               else buf_samples f ! j)"
    by blast
  have "\<forall>e \<in> set bs. \<exists>b. e = Some b \<and> buf_size b \<le> buf_size g"
    using Cons.prems gd by (simp add: buf_size_def)
  from Cons.IH [OF this] obtain f' where
    f: "add_blocks bs g = Inr f'"
    and fd: "buf_frames f' = buf_frames g" "buf_channels f' = buf_channels g"
      "length (buf_samples f') = length (buf_samples g)"
    and fc: "\<forall>j < length (buf_samples g). buf_samples f' ! j =
              buf_samples g ! j + (\<Sum>e\<leftarrow>bs. block_cell e j)"
    by blast
  have "add_blocks (e # bs) f = Inr f'"
    using e g f by simp
  moreover have "\<forall>j < length (buf_samples f). buf_samples f' ! j =
              buf_samples f ! j + (\<Sum>e\<leftarrow>e # bs. block_cell e j)"
    using fc gc gd e by (auto simp: block_cell_def)
  ultimately show ?case using fd gd by simp
qed

lemma block_cell_sum_perm:
  "mset bs = mset bs' \<Longrightarrow> (\<Sum>e\<leftarrow>bs. block_cell e j) = (\<Sum>e\<leftarrow>bs'. block_cell e j)"
proof -
  assume "mset bs = mset bs'"
  then have "mset (map (\<lambda>e. block_cell e j) bs) = mset (map (\<lambda>e. block_cell e j) bs')"
    by (metis mset_map)
  then show ?thesis by (metis sum_mset_sum_list)
qed

lemma add_blocks_perm:
  assumes p: "mset bs = mset bs'"
    and ok: "\<forall>e \<in> set bs. \<exists>b. e = Some b \<and> buf_size b \<le> buf_size f"
  shows "add_blocks bs f = add_blocks bs' f"
proof -
  have ok': "\<forall>e \<in> set bs'. \<exists>b. e = Some b \<and> buf_size b \<le> buf_size f"
    using ok p by (metis set_mset_mset)
  from add_blocks_ok [OF ok] obtain f1 where
    r1: "add_blocks bs f = Inr f1"
    and d1: "buf_frames f1 = buf_frames f" "buf_channels f1 = buf_channels f"
      "length (buf_samples f1) = length (buf_samples f)"
    and c1: "\<forall>j < length (buf_samples f). buf_samples f1 ! j =
              buf_samples f ! j + (\<Sum>e\<leftarrow>bs. block_cell e j)"
    by blast
  from add_blocks_ok [OF ok'] obtain f2 where
    r2: "add_blocks bs' f = Inr f2"
    and d2: "buf_frames f2 = buf_frames f" "buf_channels f2 = buf_channels f"
      "length (buf_samples f2) = length (buf_samples f)"
    and c2: "\<forall>j < length (buf_samples f). buf_samples f2 ! j =
              buf_samples f ! j + (\<Sum>e\<leftarrow>bs'. block_cell e j)"
    by blast
  have "buf_samples f1 = buf_samples f2"
  proof (rule nth_equalityI)
    show "length (buf_samples f1) = length (buf_samples f2)" using d1 d2 by simp
  next
    fix j assume "j < length (buf_samples f1)"
    then have "j < length (buf_samples f)" using d1 by simp
    then show "buf_samples f1 ! j = buf_samples f2 ! j"
      using c1 c2 block_cell_sum_perm [OF p, of j] by simp
  qed
  then have "f1 = f2" using d1 d2 by simp
  then show ?thesis using r1 r2 by simp
qed

lemma add_blocks_const:
  "\<exists>f'. add_blocks (replicate n (Some (const_block F dc v))) (AudioBuffer_new F dc) = Inr f'
     \<and> f' = const_block F dc (of_nat n * v)"
proof -
  let ?f = "AudioBuffer_new F dc"
  let ?bs = "replicate n (Some (const_block F dc v))"
  have ok: "\<forall>e \<in> set ?bs. \<exists>b. e = Some b \<and> buf_size b \<le> buf_size ?f"
    by (auto simp: const_block_def AudioBuffer_new_def buf_size_def)
  from add_blocks_ok [OF ok] obtain f' where
    r: "add_blocks ?bs ?f = Inr f'"
    and d: "buf_frames f' = buf_frames ?f" "buf_channels f' = buf_channels ?f"
      "length (buf_samples f') = length (buf_samples ?f)"
    and c: "\<forall>j < length (buf_samples ?f). buf_samples f' ! j =
              buf_samples ?f ! j + (\<Sum>e\<leftarrow>?bs. block_cell e j)"
    by blast
  have "buf_samples f' = replicate (F * dc) (of_nat n * v)"
  proof (rule nth_equalityI)
    show "length (buf_samples f') = length (replicate (F * dc) (of_nat n * v))"
      using d by (simp add: AudioBuffer_new_def)
  next
    fix j assume "j < length (buf_samples f')"
    then have j: "j < F * dc" using d by (simp add: AudioBuffer_new_def)
    then have "block_cell (Some (const_block F dc v)) j = v"
      by (simp add: block_cell_def const_block_def buf_size_def)
    then have "(\<Sum>e\<leftarrow>?bs. block_cell e j) = of_nat n * v"
      by (simp add: sum_list_replicate)
    then show "buf_samples f' ! j = replicate (F * dc) (of_nat n * v) ! j"
      using c j by (simp add: AudioBuffer_new_def)
  qed
  then have "f' = const_block F dc (of_nat n * v)"
    using d by (simp add: const_block_def AudioBuffer_new_def)
  with r show ?thesis by blast
qed

lemma mixdown_process_sized:
  assumes "\<forall>e \<in> set (buffs md). \<exists>b. e = Some b \<and> buf_size b \<le> out_buffer (info md) * dc"
  shows "\<exists>md'. ModuleMixDown_process dc md = Inr md' \<and> sized_by_info dc (info md) (buff md')"
proof -
  let ?f = "AudioBuffer_new (out_buffer (info md)) dc"
  have "\<forall>e \<in> set (buffs md). \<exists>b. e = Some b \<and> buf_size b \<le> buf_size ?f"
    using assms by (simp add: AudioBuffer_new_def buf_size_def)
  from add_blocks_ok [OF this] obtain f' where
    "add_blocks (buffs md) ?f = Inr f'"
    "buf_frames f' = buf_frames ?f" "buf_channels f' = buf_channels ?f"
    "length (buf_samples f') = length (buf_samples ?f)"
    by blast
  then show ?thesis
    by (simp add: ModuleMixDown_process_def create_buffer_def set_buffer_def sized_by_info_def
        AudioBuffer_new_def buf_size_def)
qed


subsection \<open>The collecting loop of Mixdown\<close>


lemma mixdown_collect_appends:
  "mixdown_collect proc qs h bs = Inr (h', bs') \<Longrightarrow>
     \<exists>cs. bs' = bs @ cs \<and> length cs = length qs"
proof (induction proc qs h bs rule: mixdown_collect.induct)
  case (1 proc h bs)
  then show ?case by simp
next
  case (2 proc qs h bs)
  then show ?case by simp
next
  case (3 proc q qs h bs)
  from "3.prems" obtain m m1 where m: "h q = Some m" and p: "proc m = Inr m1"
    by (auto split: option.splits sum.splits)
  obtain b m2 where g: "get_buffer m1 = (b, m2)" by (cases "get_buffer m1")
  have "mixdown_collect proc qs (h(q \<mapsto> m2)) (bs @ [b]) = Inr (h', bs')"
    using "3.prems" m p g by simp
  from "3.IH" [OF m p g [symmetric] this] obtain cs where
    "bs' = (bs @ [b]) @ cs" "length cs = length qs"
    by blast
  then have "bs' = bs @ (b # cs) \<and> length (b # cs) = length (Some q # qs)" by simp
  then show ?case by blast
qed

text \<open>
  A cycle of Mixdown keeps every block \<^verbatim>\<open>buffs\<close> held before it and adds one entry for
  every input.
\<close>

lemma mixdown_buffs_grow:
  assumes "ModuleMixDown_meta_process proc dc md h = Inr (md', h')"
  shows "\<exists>cs. buffs md' = buffs md @ cs \<and> length cs = length (in_mods md)"
proof -
  from assms obtain bs where
    c: "mixdown_collect proc (in_mods md) h (buffs md) = Inr (h', bs)"
    and p: "ModuleMixDown_process dc (md\<lparr>buffs := bs\<rparr>) = Inr md'"
    by (auto simp: ModuleMixDown_meta_process_def split: sum.splits prod.splits)
  from p have "buffs md' = bs"
    by (auto simp: ModuleMixDown_process_def set_buffer_def split: sum.splits)
  with mixdown_collect_appends [OF c] show ?thesis by simp
qed

lemma mixdown_collect_const:
  assumes "distinct qs"
    and "\<forall>p \<in> set qs. \<exists>q m m'. p = Some q \<and> h q = Some m \<and> proc m = Inr m' \<and> buff m' = Some B"
  shows "\<exists>h'. mixdown_collect proc qs h bs = Inr (h', bs @ replicate (length qs) (Some B))"
  using assms
proof (induction qs arbitrary: h bs)
  case Nil
  then show ?case by simp
next
  case (Cons p qs)
  from Cons.prems(2) obtain q m m' where
    p: "p = Some q" and m: "h q = Some m" and pr: "proc m = Inr m'" and b: "buff m' = Some B"
    by auto
  let ?h = "h(q \<mapsto> m'\<lparr>buff := None\<rparr>)"
  have nq: "Some q \<notin> set qs" using Cons.prems(1) p by simp
  have "\<forall>p \<in> set qs. \<exists>q m m'. p = Some q \<and> ?h q = Some m \<and> proc m = Inr m' \<and> buff m' = Some B"
  proof
    fix p' assume in': "p' \<in> set qs"
    with Cons.prems(2) obtain q' n n' where
      "p' = Some q'" "h q' = Some n" "proc n = Inr n'" "buff n' = Some B"
      by fastforce
    moreover from this in' nq have "q' \<noteq> q" by auto
    ultimately show "\<exists>q m m'. p' = Some q \<and> ?h q = Some m \<and> proc m = Inr m' \<and> buff m' = Some B"
      by simp
  qed
  moreover have "distinct qs" using Cons.prems(1) by simp
  ultimately obtain h' where
    "mixdown_collect proc qs ?h ((bs @ [Some B])) = Inr (h', (bs @ [Some B]) @ replicate (length qs) (Some B))"
    using Cons.IH [of ?h "bs @ [Some B]"] by blast
  then have "mixdown_collect proc (p # qs) h bs = Inr (h', bs @ replicate (length (p # qs)) (Some B))"
    using p m pr b by (simp add: get_buffer_def replicate_app_Cons_same)
  then show ?case by blast
qed


subsection \<open>The copy of Mix-up\<close>

lemma std_copy_from_ok:
  "length src \<le> length dst \<Longrightarrow>
     \<exists>xs. std_copy_from i src dst = Inr xs \<and> length xs = length dst
        \<and> (\<forall>j < length dst. xs ! j = (if i \<le> j \<and> j < length src then src ! j else dst ! j))"
proof (induction i src dst rule: std_copy_from.induct)
  case (1 i src dst)
  show ?case
  proof (cases "i < length src")
    case False
    then show ?thesis by (simp add: std_copy_from.simps [of i src dst])
  next
    case True
    with 1(2) have lt: "i < length dst" by simp
    have "length src \<le> length (dst[i := src ! i])" using 1(2) by simp
    from 1(1) [OF True lt this] obtain xs where
      r: "std_copy_from (Suc i) src (dst[i := src ! i]) = Inr xs"
      and l: "length xs = length dst"
      and c: "\<forall>j < length dst. xs ! j =
                (if Suc i \<le> j \<and> j < length src then src ! j else dst[i := src ! i] ! j)"
      by auto
    have "std_copy_from i src dst = Inr xs"
      using True lt r by (simp add: std_copy_from.simps [of i src dst])
    moreover have "\<forall>j < length dst. xs ! j = (if i \<le> j \<and> j < length src then src ! j else dst ! j)"
    proof (intro allI impI)
      fix j assume "j < length dst"
      then show "xs ! j = (if i \<le> j \<and> j < length src then src ! j else dst ! j)"
        using c True lt by (cases "j = i") auto
    qed
    ultimately show ?thesis using l by simp
  qed
qed

lemma std_copy_all:
  "length src = length dst \<Longrightarrow> std_copy_from 0 src dst = Inr src"
proof -
  assume e: "length src = length dst"
  then have "length src \<le> length dst" by simp
  from std_copy_from_ok [OF this, of 0] obtain xs where
    r: "std_copy_from 0 src dst = Inr xs" and l: "length xs = length dst"
    and c: "\<forall>j < length dst. xs ! j = (if 0 \<le> j \<and> j < length src then src ! j else dst ! j)"
    by blast
  have "xs = src"
    by (rule nth_equalityI) (use l e c in auto)
  with r show ?thesis by simp
qed

lemma mixup_get_buffer_copy:
  assumes r: "buff m = Some r" and b: "block_at s r = Some b"
    and d: "buf_frames b = out_buffer (info m)" "buf_channels b = dc"
      "buf_size b = out_buffer (info m) * dc"
  shows "ModuleMixUp_get_buffer dc s m = Inr (Some (length s), s @ [Some b], m)"
proof -
  have lt: "r < length s" using b by (simp add: block_at_def split: if_splits)
  then have sr: "s ! r = Some b" using b by (simp add: block_at_def)
  have "std_copy_from 0 (buf_samples b) (replicate (out_buffer (info m) * dc) 0) = Inr (buf_samples b)"
    using d by (intro std_copy_all) (simp add: buf_size_def)
  moreover have "\<lparr>buf_frames = out_buffer (info m), buf_channels = dc, buf_samples = buf_samples b\<rparr> = b"
    using d by simp
  ultimately show ?thesis
    using r lt sr
    by (simp add: ModuleMixUp_get_buffer_def make_unique_def create_buffer_def AudioBuffer_new_def
        block_at_def nth_append)
qed


subsection \<open>The sequencer loop\<close>

lemma seq_sample_last:
  assumes "cursor sq < length (segments sq)" "\<not> Suc (cursor sq) < length (segments sq)"
  shows "seq_sample sq =
     (segment_value (segments sq ! cursor sq) (clock sq),
      sq\<lparr>clock := clock_advance (clock sq)\<rparr>)"
  using assms by (simp add: seq_sample_def Let_def)

lemma seq_fill_last:
  assumes "cursor sq < length (segments sq)" "\<not> Suc (cursor sq) < length (segments sq)"
  shows "length (fst (seq_fill n sq)) = n
     \<and> (\<forall>i < n. fst (seq_fill n sq) ! i =
            segment_value (segments sq ! cursor sq) (clock_after (clock sq) i))
     \<and> snd (seq_fill n sq) = sq\<lparr>clock := (clock sq)\<lparr>clk_sample := clk_sample (clock sq) + n\<rparr>\<rparr>"
  using assms
proof (induction n arbitrary: sq)
  case 0
  then show ?case by simp
next
  case (Suc n)
  let ?sq1 = "sq\<lparr>clock := clock_advance (clock sq)\<rparr>"
  have s: "seq_sample sq = (segment_value (segments sq ! cursor sq) (clock sq), ?sq1)"
    using Suc.prems by (rule seq_sample_last)
  have c1: "cursor ?sq1 < length (segments ?sq1)" "\<not> Suc (cursor ?sq1) < length (segments ?sq1)"
    using Suc.prems by simp_all
  note ih = Suc.IH [OF c1]
  obtain vs sq2 where f: "seq_fill n ?sq1 = (vs, sq2)" by (cases "seq_fill n ?sq1")
  have r: "seq_fill (Suc n) sq = (segment_value (segments sq ! cursor sq) (clock sq) # vs, sq2)"
    using s f by simp
  have "\<forall>i < Suc n. (segment_value (segments sq ! cursor sq) (clock sq) # vs) ! i =
            segment_value (segments sq ! cursor sq) (clock_after (clock sq) i)"
  proof (intro allI impI)
    fix i assume i: "i < Suc n"
    show "(segment_value (segments sq ! cursor sq) (clock sq) # vs) ! i =
            segment_value (segments sq ! cursor sq) (clock_after (clock sq) i)"
    proof (cases i)
      case 0
      then show ?thesis by (simp add: clock_after_def)
    next
      case (Suc i')
      with i have "i' < n" by simp
      with ih f have "vs ! i' = segment_value (segments sq ! cursor sq) (clock_after (clock ?sq1) i')"
        by simp
      then show ?thesis using Suc by (simp add: clock_after_def clock_advance_def)
    qed
  qed
  moreover have "length vs = n" using ih f by simp
  moreover have "sq2 = sq\<lparr>clock := (clock sq)\<lparr>clk_sample := clk_sample (clock sq) + Suc n\<rparr>\<rparr>"
    using ih f by (simp add: clock_advance_def)
  ultimately show ?case using r by simp
qed

lemma sample_time_mono:
  "0 < nano div int (clk_rate clk) \<Longrightarrow> sample_time clk i < sample_time clk k \<longleftrightarrow> i < k"
  by (simp add: sample_time_def clock_after_def clock_time_def)

lemma sample_time_le:
  "0 < nano div int (clk_rate clk) \<Longrightarrow> sample_time clk i \<le> sample_time clk k \<longleftrightarrow> i \<le> k"
  by (simp add: sample_time_def clock_after_def clock_time_def)

lemma clock_time_after_advance:
  "clock_time (clock_advance (clock_after clk i)) = sample_time clk (Suc i)"
  by (simp add: sample_time_def clock_after_def clock_advance_def)

text \<open>
  At a stop time that is the time of a sample, the Step rule is the comparison of
  the sample's own time with the stop time.
\<close>

lemma step_rule_on_sample:
  assumes "seg_kind seg = Step" "0 < nano div int (clk_rate clk)"
    and "seg_stop_time seg = sample_time clk k"
  shows "segment_value seg (clock_after clk i) =
     (if sample_time clk i < seg_stop_time seg then start_value seg else stop_value seg)"
proof -
  have "sample_time clk (Suc i) \<le> sample_time clk k \<longleftrightarrow> sample_time clk i < sample_time clk k"
    using sample_time_le [OF assms(2), of "Suc i" k] sample_time_mono [OF assms(2), of i k]
    by (simp add: Suc_le_eq)
  then show ?thesis
    using assms(1,3) by (simp add: segment_value_def clock_time_after_advance)
qed

lemma seq_fill_add:
  "seq_fill (m + n) sq =
     (case seq_fill m sq of (xs, sq1) \<Rightarrow> (case seq_fill n sq1 of (ys, sq2) \<Rightarrow> (xs @ ys, sq2)))"
  by (induction m arbitrary: sq) (auto split: prod.splits)

lemma seq_fill_constant_run:
  assumes "cursor sq = j" "Suc j < length (segments sq)"
    and "seg_kind (segments sq ! j) = Constant"
    and "0 < nano div int (clk_rate (clock sq))"
    and "seg_stop_time (segments sq ! j) = int e * (nano div int (clk_rate (clock sq)))"
    and "clk_sample (clock sq) + n \<le> e"
  shows "seq_fill n sq =
     (replicate n (start_value (segments sq ! j)),
      sq\<lparr>cursor := (if clk_sample (clock sq) + n = e \<and> 0 < n then Suc j else j),
         clock := (clock sq)\<lparr>clk_sample := clk_sample (clock sq) + n\<rparr>\<rparr>)"
  using assms
proof (induction n arbitrary: sq)
  case 0
  then show ?case by simp
next
  case (Suc n)
  let ?c = "clk_sample (clock sq)"
  let ?p = "nano div int (clk_rate (clock sq))"
  let ?v = "start_value (segments sq ! j)"
  have le: "int e * ?p \<le> int (Suc ?c) * ?p \<longleftrightarrow> e \<le> Suc ?c"
    using Suc.prems(4) by simp linarith
  have nn: "int e * ?p \<noteq> - 1"
  proof -
    have "0 \<le> int e * ?p" using Suc.prems(4) by simp
    then show ?thesis by linarith
  qed
  show ?case
  proof (cases "Suc ?c = e")
    case True
    with Suc.prems(6) have n0: "n = 0" by simp
    have "seq_sample sq = (?v, sq\<lparr>cursor := Suc j, clock := clock_advance (clock sq)\<rparr>)"
      using Suc.prems True le nn
      by (simp add: seq_sample_def Let_def segment_value_def clock_time_def clock_advance_def)
    then show ?thesis using n0 True by (simp add: clock_advance_def)
  next
    case False
    with Suc.prems(6) have lt: "Suc ?c < e" by simp
    let ?sq1 = "sq\<lparr>clock := clock_advance (clock sq)\<rparr>"
    have s: "seq_sample sq = (?v, ?sq1)"
      using Suc.prems lt le nn
      by (simp add: seq_sample_def Let_def segment_value_def clock_time_def clock_advance_def)
    have "seq_fill n ?sq1 =
     (replicate n (start_value (segments ?sq1 ! j)),
      ?sq1\<lparr>cursor := (if clk_sample (clock ?sq1) + n = e \<and> 0 < n then Suc j else j),
         clock := (clock ?sq1)\<lparr>clk_sample := clk_sample (clock ?sq1) + n\<rparr>\<rparr>)"
      using Suc.prems by (intro Suc.IH) (simp_all add: clock_advance_def)
    then show ?thesis using s lt by (auto simp: clock_advance_def)
  qed
qed


subsection \<open>The averages and the cycle count\<close>

lemma average_by_processed:
  "(average_time m = Inl DivisionByZero \<longleftrightarrow> processed m = 0)
   \<and> (average_latency m = Inl DivisionByZero \<longleftrightarrow> processed m = 0)
   \<and> (0 < processed m \<longrightarrow>
        average_time m = Inr (total_operation_time m sdiv processed m)
        \<and> average_latency m = Inr (total_operation_latency m sdiv processed m))"
  by (auto simp: average_time_def average_latency_def int64_div_def)

lemma latency_cycle_processed:
  "LatencyModule_meta_process dt lat n m = Inr m' \<Longrightarrow> processed m' = processed m + 1"
  by (auto simp: LatencyModule_meta_process_def Counter_process_def processed_def
      split: if_splits)

lemma latency_run_processed:
  "latency_run evs m0 = Inr m \<Longrightarrow> processed m0 = int n \<Longrightarrow>
     processed m = int (cycles_since_reset n evs)"
proof (induction evs arbitrary: m0 n)
  case Nil
  then show ?case by simp
next
  case (Cons ev evs)
  show ?case
  proof (cases ev)
    case (Cycle dt lat k)
    with Cons.prems(1) obtain m1 where
      c: "LatencyModule_meta_process dt lat k m0 = Inr m1" and r: "latency_run evs m1 = Inr m"
      by (auto split: sum.splits)
    from latency_cycle_processed [OF c] Cons.prems(2) have "processed m1 = int (Suc n)"
      by simp
    from Cons.IH [OF r this] Cycle show ?thesis by simp
  next
    case Reset
    with Cons.prems(1) have r: "latency_run evs (Counter_reset m0) = Inr m" by simp
    have "processed (Counter_reset m0) = int 0"
      by (simp add: processed_def Counter_reset_def)
    from Cons.IH [OF r this] Reset show ?thesis by simp
  qed
qed

section \<open>The properties\<close>

subsection \<open>C1: the dimensions of the block a process() call leaves\<close>

text \<open>
  C1, as the code has it. For each of the four oscillators and for Mixdown, the block
  that \<^verbatim>\<open>process()\<close> leaves in the module has as many frames as the module's own
  \<^verbatim>\<open>info.out_buffer\<close> and as many channels as the default argument \<open>dc\<close> of
  \<^verbatim>\<open>create_buffer\<close>, with one cell per frame and channel. The pointer \<^verbatim>\<open>this->chain\<close> to the
  shared chain descriptor is not read: changing it changes nothing in the result but
  the pointer itself. Mixdown returns, and with such a block, whenever no collected
  block is null or larger than the new one.
\<close>

theorem C1_block_sized_by_module_info:
  assumes "\<forall>e \<in> set (buffs md). \<exists>b. e = Some b \<and> buf_size b \<le> out_buffer (info md) * dc"
  shows "sized_by_info dc (info m) (buff (SineOscillator_process dc m))
   \<and> sized_by_info dc (info m) (buff (SquareOscillator_process dc m))
   \<and> sized_by_info dc (info m) (buff (SawtoothOscillator_process dc m))
   \<and> sized_by_info dc (info m) (buff (TriangleOscillator_process dc m))
   \<and> buff (SineOscillator_process dc (m\<lparr>chain := c\<rparr>)) = buff (SineOscillator_process dc m)
   \<and> buff (SquareOscillator_process dc (m\<lparr>chain := c\<rparr>)) = buff (SquareOscillator_process dc m)
   \<and> buff (SawtoothOscillator_process dc (m\<lparr>chain := c\<rparr>))
         = buff (SawtoothOscillator_process dc m)
   \<and> buff (TriangleOscillator_process dc (m\<lparr>chain := c\<rparr>))
         = buff (TriangleOscillator_process dc m)
   \<and> (\<exists>md'. ModuleMixDown_process dc md = Inr md'
           \<and> sized_by_info dc (info md) (buff md')
           \<and> ModuleMixDown_process dc (md\<lparr>chain := c\<rparr>) = Inr (md'\<lparr>chain := c\<rparr>))"
proof -
  from mixdown_process_sized [OF assms] obtain md' where
    r: "ModuleMixDown_process dc md = Inr md'" and s: "sized_by_info dc (info md) (buff md')"
    by blast
  have "ModuleMixDown_process dc (md\<lparr>chain := c\<rparr>) = Inr (md'\<lparr>chain := c\<rparr>)"
    using r by (auto simp: ModuleMixDown_process_def create_buffer_def set_buffer_def split: sum.splits)
  with r s show ?thesis
    by (simp add: SineOscillator_process_def SquareOscillator_process_def
      SawtoothOscillator_process_def TriangleOscillator_process_def
      osc_process_sized osc_process_chain)
qed


text \<open>
  C1 as stated fails. A sine oscillator whose \<^verbatim>\<open>info\<close> says 2 frames and 2 channels, in
  a chain whose shared descriptor says 3 frames and 2 channels, leaves a block of
  2 frames and 1 channel when the default argument is 1.
\<close>

theorem C1_counterexample:
  "buff (SineOscillator_process 1
       \<lparr>backward = None, forward = None, chain = Some 0,
        info = \<lparr>mi_sample_rate = 1, mi_channels = 2, out_buffer = 2\<rparr>, buff = None,
        frequency = 0, phase = 0, sample_rate = 1\<rparr>)
     = Some \<lparr>buf_frames = 2, buf_channels = 1, buf_samples = [0, 0]\<rparr>
   \<and> \<not> block_as_declared [0 \<mapsto> \<lparr>ci_sample_rate = 1, ci_channels = 2, ci_buffer_size = 3\<rparr>]
       (SineOscillator_process 1
         \<lparr>backward = None, forward = None, chain = Some 0,
          info = \<lparr>mi_sample_rate = 1, mi_channels = 2, out_buffer = 2\<rparr>, buff = None,
          frequency = 0, phase = 0, sample_rate = 1\<rparr>)"
  by (simp add: SineOscillator_process_def osc_process_def set_buffer_def create_buffer_def
      AudioBuffer_new_def sine_wave_def block_as_declared_def osc_fill.simps numeral_2_eq_2)


text \<open>An instance of C1: a sine oscillator, and a Mixdown holding two blocks.\<close>

theorem C1_witness:
  "sized_by_info 1 \<lparr>mi_sample_rate = 1, mi_channels = 1, out_buffer = 2\<rparr>
     (buff (SineOscillator_process 1
       \<lparr>backward = None, forward = None, chain = None,
        info = \<lparr>mi_sample_rate = 1, mi_channels = 1, out_buffer = 2\<rparr>, buff = None,
        frequency = 440, phase = 0, sample_rate = 44100\<rparr>))
   \<and> (\<exists>md'. ModuleMixDown_process 1
       \<lparr>backward = None, forward = None, chain = None,
        info = \<lparr>mi_sample_rate = 1, mi_channels = 1, out_buffer = 2\<rparr>, buff = None,
        in_mods = [], buffs = [Some (const_block 2 1 3), Some (const_block 1 1 4)]\<rparr> = Inr md'
     \<and> sized_by_info 1 \<lparr>mi_sample_rate = 1, mi_channels = 1, out_buffer = 2\<rparr> (buff md'))"
proof -
  let ?md = "\<lparr>backward = None, forward = None, chain = None,
        info = \<lparr>mi_sample_rate = 1, mi_channels = 1, out_buffer = 2\<rparr>, buff = None,
        in_mods = [], buffs = [Some (const_block 2 1 3), Some (const_block 1 1 4)]\<rparr>"
  let ?m = "\<lparr>backward = None, forward = None, chain = None,
        info = \<lparr>mi_sample_rate = 1, mi_channels = 1, out_buffer = 2\<rparr>, buff = None,
        frequency = 440, phase = 0, sample_rate = 44100\<rparr>"
  have h: "\<forall>e \<in> set (buffs ?md). \<exists>b. e = Some b \<and> buf_size b \<le> out_buffer (info ?md) * 1"
    by (simp add: const_block_def buf_size_def)
  from C1_block_sized_by_module_info [OF h, of ?m None] show ?thesis
    by auto
qed


subsection \<open>C2: Mixdown sums its inputs\<close>

text \<open>
  What the code does in a cycle that starts with no collected block, as the first
  cycle after construction does. With N distinct input modules, each of whose
  \<^verbatim>\<open>process()\<close> leaves the block of the Mixdown's dimensions with every sample equal to
  \<open>v\<close>, \<^verbatim>\<open>meta_process()\<close> returns holding the block of those dimensions with every
  sample equal to N * v. And the sum does not depend on the order of the collected
  blocks: for any blocks of the Mixdown's size, \<^verbatim>\<open>process()\<close> on a rearrangement of
  \<^verbatim>\<open>buffs\<close> leaves the same block.
\<close>

lemma mixdown_first_cycle_sum:
  assumes empty: "buffs md = []"
    and dist: "distinct (in_mods md)"
    and inputs: "\<forall>p \<in> set (in_mods md). \<exists>q m m'. p = Some q \<and> h q = Some m \<and> proc m = Inr m'
                   \<and> buff m' = Some (const_block (out_buffer (info md)) dc v)"
  shows "(\<exists>md' h'. ModuleMixDown_meta_process proc dc md h = Inr (md', h')
            \<and> buff md' = Some (const_block (out_buffer (info md)) dc
                                 (of_nat (length (in_mods md)) * v)))
         \<and> (\<forall>bs bs'. mset bs = mset bs'
              \<and> (\<forall>e \<in> set bs. \<exists>b. e = Some b \<and> buf_size b = out_buffer (info md) * dc) \<longrightarrow>
              (\<exists>md1 md2. ModuleMixDown_process dc (md\<lparr>buffs := bs\<rparr>) = Inr md1
                 \<and> ModuleMixDown_process dc (md\<lparr>buffs := bs'\<rparr>) = Inr md2
                 \<and> buff md1 = buff md2))"
proof (intro conjI allI impI)
  let ?B = "const_block (out_buffer (info md)) dc v"
  let ?n = "length (in_mods md)"
  from mixdown_collect_const [OF dist inputs, of "buffs md"] obtain h' where
    c: "mixdown_collect proc (in_mods md) h (buffs md) = Inr (h', replicate ?n (Some ?B))"
    using empty by auto
  from add_blocks_const [of ?n "out_buffer (info md)" dc v]
  have "add_blocks (replicate ?n (Some ?B)) (AudioBuffer_new (out_buffer (info md)) dc)
          = Inr (const_block (out_buffer (info md)) dc (of_nat ?n * v))"
    by blast
  then have "ModuleMixDown_process dc (md\<lparr>buffs := replicate ?n (Some ?B)\<rparr>)
          = Inr (set_buffer (Some (const_block (out_buffer (info md)) dc (of_nat ?n * v)))
                   (md\<lparr>buffs := replicate ?n (Some ?B)\<rparr>))"
    by (simp add: ModuleMixDown_process_def create_buffer_def)
  with c show "\<exists>md' h'. ModuleMixDown_meta_process proc dc md h = Inr (md', h')
            \<and> buff md' = Some (const_block (out_buffer (info md)) dc (of_nat ?n * v))"
    by (simp add: ModuleMixDown_meta_process_def set_buffer_def)
next
  fix bs bs' :: "AudioBuffer option list"
  assume a: "mset bs = mset bs'
     \<and> (\<forall>e \<in> set bs. \<exists>b. e = Some b \<and> buf_size b = out_buffer (info md) * dc)"
  let ?f = "AudioBuffer_new (out_buffer (info md)) dc"
  have ok: "\<forall>e \<in> set bs. \<exists>b. e = Some b \<and> buf_size b \<le> buf_size ?f"
    using a by (auto simp: AudioBuffer_new_def buf_size_def)
  from add_blocks_ok [OF ok] obtain f' where r: "add_blocks bs ?f = Inr f'" by blast
  moreover have "add_blocks bs' ?f = Inr f'"
    using add_blocks_perm [of bs bs' ?f] a ok r by simp
  ultimately show "\<exists>md1 md2. ModuleMixDown_process dc (md\<lparr>buffs := bs\<rparr>) = Inr md1
                 \<and> ModuleMixDown_process dc (md\<lparr>buffs := bs'\<rparr>) = Inr md2
                 \<and> buff md1 = buff md2"
    by (simp add: ModuleMixDown_process_def create_buffer_def set_buffer_def)
qed

text \<open>
  Two square oscillators of frequency 0, whose blocks are all 1, into a new Mixdown
  of 2 frames: the sum is all 2.
\<close>

lemma mixdown_first_cycle_example:
  "\<exists>md' h'. ModuleMixDown_meta_process (\<lambda>m. Inr (SquareOscillator_process 1 m)) 1
       \<lparr>backward = None, forward = None, chain = None,
        info = \<lparr>mi_sample_rate = 1, mi_channels = 1, out_buffer = 2\<rparr>, buff = None,
        in_mods = [Some 0, Some 1], buffs = []\<rparr>
       [0 \<mapsto> \<lparr>backward = None, forward = None, chain = None,
              info = \<lparr>mi_sample_rate = 1, mi_channels = 1, out_buffer = 2\<rparr>, buff = None,
              frequency = 0, phase = 0, sample_rate = 1\<rparr>,
        1 \<mapsto> \<lparr>backward = None, forward = None, chain = None,
              info = \<lparr>mi_sample_rate = 1, mi_channels = 1, out_buffer = 2\<rparr>, buff = None,
              frequency = 0, phase = 7, sample_rate = 1\<rparr>] = Inr (md', h')
     \<and> buff md' = Some (const_block 2 1 2)"
proof -
  let ?md = "\<lparr>backward = None, forward = None, chain = None,
        info = \<lparr>mi_sample_rate = 1, mi_channels = 1, out_buffer = 2\<rparr>, buff = None,
        in_mods = [Some 0, Some 1], buffs = []\<rparr> :: AudioBuffer ModuleMixDown"
  let ?h = "[0 \<mapsto> \<lparr>backward = None, forward = None, chain = None,
              info = \<lparr>mi_sample_rate = 1, mi_channels = 1, out_buffer = 2\<rparr>, buff = None,
              frequency = 0, phase = 0, sample_rate = 1\<rparr>,
        1 \<mapsto> \<lparr>backward = None, forward = None, chain = None,
              info = \<lparr>mi_sample_rate = 1, mi_channels = 1, out_buffer = 2\<rparr>, buff = None,
              frequency = 0, phase = 7, sample_rate = 1\<rparr>] :: addr \<rightharpoonup> AudioBuffer Oscillator"
  let ?proc = "\<lambda>m :: AudioBuffer Oscillator. Inr (SquareOscillator_process 1 m) :: error + AudioBuffer Oscillator"
  have e: "buffs ?md = []" by simp
  have d: "distinct (in_mods ?md)" by simp
  let ?o0 = "\<lparr>backward = None, forward = None, chain = None,
              info = \<lparr>mi_sample_rate = 1, mi_channels = 1, out_buffer = 2\<rparr>, buff = None,
              frequency = 0, phase = 0, sample_rate = 1\<rparr> :: AudioBuffer Oscillator"
  let ?o1 = "\<lparr>backward = None, forward = None, chain = None,
              info = \<lparr>mi_sample_rate = 1, mi_channels = 1, out_buffer = 2\<rparr>, buff = None,
              frequency = 0, phase = 7, sample_rate = 1\<rparr> :: AudioBuffer Oscillator"
  have p0: "buff (SquareOscillator_process 1 ?o0) = Some (const_block 2 1 1)"
    by (simp add: SquareOscillator_process_def osc_process_def set_buffer_def create_buffer_def
        AudioBuffer_new_def osc_fill.simps square_wave_def modf_def const_block_def numeral_2_eq_2)
  have p1: "buff (SquareOscillator_process 1 ?o1) = Some (const_block 2 1 1)"
    by (simp add: SquareOscillator_process_def osc_process_def set_buffer_def create_buffer_def
        AudioBuffer_new_def osc_fill.simps square_wave_def modf_def const_block_def numeral_2_eq_2)
  have i: "\<forall>p \<in> set (in_mods ?md). \<exists>q m m'. p = Some q \<and> ?h q = Some m \<and> ?proc m = Inr m'
                   \<and> buff m' = Some (const_block (out_buffer (info ?md)) 1 1)"
  proof
    fix p assume "p \<in> set (in_mods ?md)"
    then consider "p = Some 0" | "p = Some 1" by auto
    then show "\<exists>q m m'. p = Some q \<and> ?h q = Some m \<and> ?proc m = Inr m'
                   \<and> buff m' = Some (const_block (out_buffer (info ?md)) 1 1)"
    proof cases
      case 1
      show ?thesis
        apply (rule exI [of _ 0])
        apply (rule exI [of _ ?o0])
        apply (rule exI [of _ "SquareOscillator_process 1 ?o0"])
        using 1 p0 apply simp
        done
    next
      case 2
      show ?thesis
        apply (rule exI [of _ 1])
        apply (rule exI [of _ ?o1])
        apply (rule exI [of _ "SquareOscillator_process 1 ?o1"])
        using 2 p1 apply simp
        done
    qed
  qed
  have r: "\<exists>md' h'. ModuleMixDown_meta_process ?proc 1 ?md ?h = Inr (md', h')
     \<and> buff md' = Some (const_block (out_buffer (info ?md)) 1 (of_nat (length (in_mods ?md)) * 1))"
    by (rule mixdown_first_cycle_sum [OF e d i, THEN conjunct1])
  have v: "const_block (out_buffer (info ?md)) 1 (of_nat (length (in_mods ?md)) * 1) = const_block 2 1 2"
    by simp
  show ?thesis using r unfolding v .
qed

text \<open>
  C2 says that a processing cycle of a Mixdown with N inputs, each producing the
  block that is all \<open>v\<close>, leaves the block that is all N * v. The code does so in the
  first cycle only: the blocks of earlier cycles stay in \<^verbatim>\<open>buffs\<close> and are summed
  again. With two inputs, square oscillators of frequency 0 whose block is the
  single sample 1, the first cycle leaves [2] and the second cycle, with the same
  inputs producing the same blocks, leaves [4].
\<close>

theorem C2_second_cycle:
  "(case ModuleMixDown_meta_process (\<lambda>m. Inr (SquareOscillator_process 1 m)) 1
          \<lparr>backward = None, forward = None, chain = None,
           info = \<lparr>mi_sample_rate = 1, mi_channels = 1, out_buffer = 1\<rparr>, buff = None,
           in_mods = [Some 0, Some 1], buffs = []\<rparr>
          [0 \<mapsto> \<lparr>backward = None, forward = None, chain = None,
                 info = \<lparr>mi_sample_rate = 1, mi_channels = 1, out_buffer = 1\<rparr>, buff = None,
                 frequency = 0, phase = 0, sample_rate = 1\<rparr>,
           1 \<mapsto> \<lparr>backward = None, forward = None, chain = None,
                 info = \<lparr>mi_sample_rate = 1, mi_channels = 1, out_buffer = 1\<rparr>, buff = None,
                 frequency = 0, phase = 0, sample_rate = 1\<rparr>] of
      Inl e \<Rightarrow> False
    | Inr (md1, h1) \<Rightarrow>
        buff md1 = Some (const_block 1 1 2)
        \<and> (case ModuleMixDown_meta_process (\<lambda>m. Inr (SquareOscillator_process 1 m)) 1 md1 h1 of
             Inl e \<Rightarrow> False
           | Inr (md2, h2) \<Rightarrow> buff md2 = Some (const_block 1 1 4)))"
  by (simp add: ModuleMixDown_meta_process_def ModuleMixDown_process_def get_buffer_def
      SquareOscillator_process_def osc_process_def set_buffer_def create_buffer_def
      AudioBuffer_new_def osc_fill.simps square_wave_def modf_def buf_size_def
      add_block_from.simps const_block_def)

subsection \<open>C3: collected blocks across cycles\<close>

text \<open>
  C3 says that no block collected in one cycle contributes to a later one. The code
  never removes an entry of \<^verbatim>\<open>buffs\<close>. With one input, a square oscillator of frequency
  0 whose block is the single sample 1, the first cycle leaves [1]; the second cycle
  leaves [2], the sum of the block of the first cycle and the block of the second,
  and \<^verbatim>\<open>buffs\<close> holds both (in general, see \<open>mixdown_buffs_grow\<close>).
\<close>

theorem C3_two_cycles:
  "(case ModuleMixDown_meta_process (\<lambda>m. Inr (SquareOscillator_process 1 m)) 1
          \<lparr>backward = None, forward = None, chain = None,
           info = \<lparr>mi_sample_rate = 1, mi_channels = 1, out_buffer = 1\<rparr>, buff = None,
           in_mods = [Some 0], buffs = []\<rparr>
          [0 \<mapsto> \<lparr>backward = None, forward = None, chain = None,
                 info = \<lparr>mi_sample_rate = 1, mi_channels = 1, out_buffer = 1\<rparr>, buff = None,
                 frequency = 0, phase = 0, sample_rate = 1\<rparr>] of
      Inl e \<Rightarrow> False
    | Inr (md1, h1) \<Rightarrow>
        map_option buf_samples (buff md1) = Some [1]
        \<and> (case ModuleMixDown_meta_process (\<lambda>m. Inr (SquareOscillator_process 1 m)) 1 md1 h1 of
             Inl e \<Rightarrow> False
           | Inr (md2, h2) \<Rightarrow>
               map_option buf_samples (buff md2) = Some [2]
               \<and> length (buffs md2) = 2))"
  by (simp add: ModuleMixDown_meta_process_def ModuleMixDown_process_def get_buffer_def
      SquareOscillator_process_def osc_process_def set_buffer_def create_buffer_def
      AudioBuffer_new_def osc_fill.simps square_wave_def modf_def buf_size_def
      add_block_from.simps)


subsection \<open>C4: Mix-up hands out independent copies\<close>

text \<open>
  C4, as the code has it. A Mix-up holds the pointer \<open>r\<close> to a block \<open>b\<close> that has
  the dimensions \<^verbatim>\<open>create_buffer()\<close> gives: \<^verbatim>\<open>info.out_buffer\<close> frames and the default
  number of channels. Then two calls of \<^verbatim>\<open>get_buffer()\<close> in a row both return: the
  pointers \<open>t1\<close> and \<open>t2\<close> they return are fresh (not allocated before the call),
  differ from \<open>r\<close> and from each other, and point to blocks equal to \<open>b\<close>; the module
  and the block at \<open>r\<close> are as before. A write through \<open>t1\<close> changes the block at
  \<open>t1\<close> only, and a write through \<open>t2\<close> the block at \<open>t2\<close> only.
\<close>

theorem C4_mixup_copies:
  assumes r: "buff m = Some r" and b: "block_at s r = Some b"
    and d: "buf_frames b = out_buffer (info m)" "buf_channels b = dc"
      "buf_size b = out_buffer (info m) * dc"
  shows "\<exists>t1 s1 t2 s2.
           ModuleMixUp_get_buffer dc s m = Inr (Some t1, s1, m)
           \<and> ModuleMixUp_get_buffer dc s1 m = Inr (Some t2, s2, m)
           \<and> block_at s t1 = None \<and> block_at s1 t2 = None
           \<and> t1 \<noteq> r \<and> t2 \<noteq> r \<and> t1 \<noteq> t2
           \<and> block_at s1 t1 = Some b \<and> block_at s1 r = Some b
           \<and> block_at s2 t1 = Some b \<and> block_at s2 t2 = Some b \<and> block_at s2 r = Some b
           \<and> (\<forall>i x. i < buf_size b \<longrightarrow>
                 (\<exists>s3. block_write s2 t1 i x = Inr s3
                    \<and> block_at s3 t1 = Some (b\<lparr>buf_samples := (buf_samples b)[i := x]\<rparr>)
                    \<and> block_at s3 t2 = Some b \<and> block_at s3 r = Some b)
                 \<and> (\<exists>s3. block_write s2 t2 i x = Inr s3
                    \<and> block_at s3 t2 = Some (b\<lparr>buf_samples := (buf_samples b)[i := x]\<rparr>)
                    \<and> block_at s3 t1 = Some b \<and> block_at s3 r = Some b))"
proof -
  have lt: "r < length s" using b by (simp add: block_at_def split: if_splits)
  then have sr: "s ! r = Some b" using b by (simp add: block_at_def)
  let ?s1 = "s @ [Some b]"
  let ?s2 = "?s1 @ [Some b]"
  have g1: "ModuleMixUp_get_buffer dc s m = Inr (Some (length s), ?s1, m)"
    by (rule mixup_get_buffer_copy [OF r b d])
  have b1: "block_at ?s1 r = Some b" using lt sr by (simp add: block_at_def nth_append)
  have g2: "ModuleMixUp_get_buffer dc ?s1 m = Inr (Some (length ?s1), ?s2, m)"
    by (rule mixup_get_buffer_copy [OF r b1 d])
  have w: "\<forall>i x. i < buf_size b \<longrightarrow>
                 (\<exists>s3. block_write ?s2 (length s) i x = Inr s3
                    \<and> block_at s3 (length s) = Some (b\<lparr>buf_samples := (buf_samples b)[i := x]\<rparr>)
                    \<and> block_at s3 (length ?s1) = Some b \<and> block_at s3 r = Some b)
                 \<and> (\<exists>s3. block_write ?s2 (length ?s1) i x = Inr s3
                    \<and> block_at s3 (length ?s1) = Some (b\<lparr>buf_samples := (buf_samples b)[i := x]\<rparr>)
                    \<and> block_at s3 (length s) = Some b \<and> block_at s3 r = Some b)"
    using lt sr by (auto simp: block_write_def block_at_def nth_append nth_list_update)
  show ?thesis
    apply (rule exI [of _ "length s"])
    apply (rule exI [of _ ?s1])
    apply (rule exI [of _ "length ?s1"])
    apply (rule exI [of _ ?s2])
    using g1 g2 w lt sr
    apply (simp add: block_at_def nth_append)
    done
qed

text \<open>
  C4 as stated, for any retained block, fails. The copy is a block from
  \<^verbatim>\<open>create_buffer()\<close>, sized by the module's info and not by the retained block. A
  Mix-up whose info says 2 frames and which holds the block [7] of 1 frame returns
  the block [7, 0]: its contents are not those of the retained block.
\<close>

theorem C4_counterexample:
  "ModuleMixUp_get_buffer 1 [Some (const_block 1 1 7)]
       \<lparr>backward = None, forward = None, chain = None,
        info = \<lparr>mi_sample_rate = 1, mi_channels = 1, out_buffer = 2\<rparr>, buff = Some 0,
        out_mods = []\<rparr>
     = Inr (Some 1,
            [Some (const_block 1 1 7),
             Some \<lparr>buf_frames = 2, buf_channels = 1, buf_samples = [7, 0]\<rparr>],
            \<lparr>backward = None, forward = None, chain = None,
             info = \<lparr>mi_sample_rate = 1, mi_channels = 1, out_buffer = 2\<rparr>, buff = Some 0,
             out_mods = []\<rparr>)
   \<and> buf_samples \<lparr>buf_frames = 2, buf_channels = 1, buf_samples = [7, 0]\<rparr>
       \<noteq> buf_samples (const_block 1 1 7)"
  by (simp add: ModuleMixUp_get_buffer_def make_unique_def create_buffer_def
      AudioBuffer_new_def block_at_def std_copy_from.simps const_block_def numeral_2_eq_2)

text \<open>
  An instance of C4: a Mix-up holding the block [7, 7] at address 0; the second cell
  of the first copy is overwritten with 9.
\<close>

theorem C4_witness:
  "\<exists>t1 s1 t2 s2.
     ModuleMixUp_get_buffer 1 [Some (const_block 2 1 7)]
       \<lparr>backward = None, forward = None, chain = None,
        info = \<lparr>mi_sample_rate = 1, mi_channels = 1, out_buffer = 2\<rparr>, buff = Some 0,
        out_mods = []\<rparr>
       = Inr (Some t1, s1,
           \<lparr>backward = None, forward = None, chain = None,
            info = \<lparr>mi_sample_rate = 1, mi_channels = 1, out_buffer = 2\<rparr>, buff = Some 0,
            out_mods = []\<rparr>)
     \<and> ModuleMixUp_get_buffer 1 s1
       \<lparr>backward = None, forward = None, chain = None,
        info = \<lparr>mi_sample_rate = 1, mi_channels = 1, out_buffer = 2\<rparr>, buff = Some 0,
        out_mods = []\<rparr>
       = Inr (Some t2, s2,
           \<lparr>backward = None, forward = None, chain = None,
            info = \<lparr>mi_sample_rate = 1, mi_channels = 1, out_buffer = 2\<rparr>, buff = Some 0,
            out_mods = []\<rparr>)
     \<and> t1 \<noteq> 0 \<and> t2 \<noteq> 0 \<and> t1 \<noteq> t2
     \<and> block_at s2 t1 = Some (const_block 2 1 7)
     \<and> block_at s2 t2 = Some (const_block 2 1 7)
     \<and> block_at s2 0 = Some (const_block 2 1 7)
     \<and> (\<exists>s3. block_write s2 t1 1 9 = Inr s3
          \<and> block_at s3 t1 = Some ((const_block 2 1 7)\<lparr>buf_samples := (buf_samples (const_block 2 1 7))[1 := 9]\<rparr>)
          \<and> block_at s3 t2 = Some (const_block 2 1 7)
          \<and> block_at s3 0 = Some (const_block 2 1 7))"
proof -
  let ?m = "\<lparr>backward = None, forward = None, chain = None,
        info = \<lparr>mi_sample_rate = 1, mi_channels = 1, out_buffer = 2\<rparr>, buff = Some 0,
        out_mods = []\<rparr> :: addr ModuleMixUp"
  let ?s = "[Some (const_block 2 1 7)]"
  let ?b = "const_block 2 1 7"
  have r: "buff ?m = Some 0" by simp
  have b: "block_at ?s 0 = Some ?b" by (simp add: block_at_def)
  have d: "buf_frames ?b = out_buffer (info ?m)" "buf_channels ?b = 1"
    "buf_size ?b = out_buffer (info ?m) * 1"
    by (simp_all add: const_block_def buf_size_def)
  have i: "(1::nat) < buf_size ?b" by (simp add: const_block_def buf_size_def)
  from C4_mixup_copies [OF r b d] obtain t1 s1 t2 s2 where
    g: "ModuleMixUp_get_buffer 1 ?s ?m = Inr (Some t1, s1, ?m)"
       "ModuleMixUp_get_buffer 1 s1 ?m = Inr (Some t2, s2, ?m)"
    and n: "t1 \<noteq> 0" "t2 \<noteq> 0" "t1 \<noteq> t2"
    and c: "block_at s2 t1 = Some ?b" "block_at s2 t2 = Some ?b" "block_at s2 0 = Some ?b"
    and w: "\<forall>i x. i < buf_size ?b \<longrightarrow>
                 (\<exists>s3. block_write s2 t1 i x = Inr s3
                    \<and> block_at s3 t1 = Some (?b\<lparr>buf_samples := (buf_samples ?b)[i := x]\<rparr>)
                    \<and> block_at s3 t2 = Some ?b \<and> block_at s3 0 = Some ?b)
                 \<and> (\<exists>s3. block_write s2 t2 i x = Inr s3
                    \<and> block_at s3 t2 = Some (?b\<lparr>buf_samples := (buf_samples ?b)[i := x]\<rparr>)
                    \<and> block_at s3 t1 = Some ?b \<and> block_at s3 0 = Some ?b)"
    by (elim exE conjE)
  from w i have "\<exists>s3. block_write s2 t1 1 9 = Inr s3
          \<and> block_at s3 t1 = Some (?b\<lparr>buf_samples := (buf_samples ?b)[1 := 9]\<rparr>)
          \<and> block_at s3 t2 = Some ?b \<and> block_at s3 0 = Some ?b"
    by blast
  with g n c show ?thesis by blast
qed

subsection \<open>C5: block transfer\<close>

text \<open>
  C5. For a module holding a block \<open>b\<close>, \<^verbatim>\<open>AudioModule::get_buffer\<close> returns \<open>b\<close> and
  leaves the module holding none, so that a second \<^verbatim>\<open>get_buffer\<close> returns nothing;
  \<^verbatim>\<open>AudioModule::set_buffer\<close> installs the block it is given; and moving the block
  into another module \<open>dst\<close> leaves it there and not in the source. (Mix-up replaces
  \<^verbatim>\<open>get_buffer\<close> by the copying one of C4.)
\<close>

theorem C5_block_transfer:
  "buff m = Some b \<Longrightarrow>
     fst (get_buffer m) = Some b
     \<and> buff (snd (get_buffer m)) = None
     \<and> fst (get_buffer (snd (get_buffer m))) = None
     \<and> buff (set_buffer (Some b') (snd (get_buffer m))) = Some b'
     \<and> buff (set_buffer (fst (get_buffer m)) dst) = Some b"
  by (simp add: get_buffer_def set_buffer_def)

text \<open>
  An instance of C5: a module holding the block [5].
\<close>

theorem C5_witness:
  "fst (get_buffer \<lparr>backward = None, forward = None, chain = None,
          info = \<lparr>mi_sample_rate = 1, mi_channels = 1, out_buffer = 1\<rparr>,
          buff = Some (const_block 1 1 5)\<rparr>) = Some (const_block 1 1 5)
   \<and> buff (snd (get_buffer \<lparr>backward = None, forward = None, chain = None,
          info = \<lparr>mi_sample_rate = 1, mi_channels = 1, out_buffer = 1\<rparr>,
          buff = Some (const_block 1 1 5)\<rparr>)) = None"
proof -
  let ?m = "\<lparr>backward = None, forward = None, chain = None,
          info = \<lparr>mi_sample_rate = 1, mi_channels = 1, out_buffer = 1\<rparr>,
          buff = Some (const_block 1 1 5)\<rparr>"
  have h: "buff ?m = Some (const_block 1 1 5)" by simp
  from C5_block_transfer [OF h, of "const_block 1 1 6" ?m] show ?thesis by blast
qed

subsection \<open>C6: Mixdown runs the local step of its inputs only\<close>



subsection \<open>C7: the step envelope\<close>



subsection \<open>C8: three constant segments in sequence\<close>

text \<open>
  C8. A sequence holds three Constant segments with the values 5, 20 and 30; the first
  ends at the time of sample \<open>B\<close> and the second at the time of sample \<open>2 * B\<close>, for a
  block size \<open>B\<close>. From sample 0, three calls of \<^verbatim>\<open>process()\<close> with block size \<open>B\<close> return
  the block of all 5, then of all 20, then of all 30; and one call with block size
  \<open>3 * B\<close> returns \<open>B\<close> samples of 5, then \<open>B\<close> of 20, then \<open>B\<close> of 30.
\<close>

theorem C8_three_constants:
  assumes segs: "segments sq = [s1, s2, s3]" "cursor sq = 0"
    and clk: "clk_sample (clock sq) = 0" "0 < nano div int (clk_rate (clock sq))"
    and B: "0 < B"
    and kinds: "seg_kind s1 = Constant" "seg_kind s2 = Constant" "seg_kind s3 = Constant"
    and vals: "start_value s1 = 5" "start_value s2 = 20" "start_value s3 = 30"
    and stops: "seg_stop_time s1 = sample_time (clock sq) B"
      "seg_stop_time s2 = sample_time (clock sq) (2 * B)"
  shows "(\<exists>sq1 sq2 sq3.
            Sequence_process B sq = (replicate B 5, sq1)
            \<and> Sequence_process B sq1 = (replicate B 20, sq2)
            \<and> Sequence_process B sq2 = (replicate B 30, sq3))
         \<and> fst (Sequence_process (3 * B) sq) = replicate B 5 @ replicate B 20 @ replicate B 30"
proof -
  let ?p = "nano div int (clk_rate (clock sq))"
  let ?sq1 = "sq\<lparr>cursor := Suc 0, clock := (clock sq)\<lparr>clk_sample := B\<rparr>\<rparr>"
  let ?sq2 = "sq\<lparr>cursor := Suc (Suc 0), clock := (clock sq)\<lparr>clk_sample := 2 * B\<rparr>\<rparr>"
  let ?sq3 = "sq\<lparr>cursor := Suc (Suc 0), clock := (clock sq)\<lparr>clk_sample := 3 * B\<rparr>\<rparr>"
  have f1: "seq_fill B sq = (replicate B 5, ?sq1)"
    using seq_fill_constant_run [of sq 0 B B] segs clk B kinds vals stops
    by (simp add: sample_time_def clock_after_def clock_time_def)
  have f2: "seq_fill B ?sq1 = (replicate B 20, ?sq2)"
    using seq_fill_constant_run [of ?sq1 1 "2 * B" B] segs clk B kinds vals stops
    by (simp add: sample_time_def clock_after_def clock_time_def)
  have f3: "seq_fill B ?sq2 = (replicate B 30, ?sq3)"
  proof -
    have c: "cursor ?sq2 < length (segments ?sq2)" "\<not> Suc (cursor ?sq2) < length (segments ?sq2)"
      using segs by simp_all
    from seq_fill_last [OF c, of B] segs kinds vals
    have l: "length (fst (seq_fill B ?sq2)) = B"
      and v: "\<forall>i < B. fst (seq_fill B ?sq2) ! i = 30"
      and s: "snd (seq_fill B ?sq2) = ?sq3"
      by (simp_all add: segment_value_def)
    have "fst (seq_fill B ?sq2) = replicate B 30"
      by (rule nth_equalityI) (use l v in auto)
    with s show ?thesis by (metis prod.collapse)
  qed
  have e: "3 * B = B + (B + B)" by simp
  have "seq_fill (B + (B + B)) sq = (replicate B 5 @ replicate B 20 @ replicate B 30, ?sq3)"
    using f1 f2 f3 by (simp add: seq_fill_add)
  then have "fst (seq_fill (3 * B) sq) = replicate B 5 @ replicate B 20 @ replicate B 30"
    unfolding e by simp
  with f1 f2 f3 show ?thesis unfolding Sequence_process_def by blast
qed

text \<open>
  An instance of C8: the segments end after 1 s and 2 s, at 100 samples a second, with
  blocks of 100 samples.
\<close>

theorem C8_witness:
  "(\<exists>sq1 sq2 sq3.
      Sequence_process 100
        \<lparr>segments = [\<lparr>seg_kind = Constant, seg_start_time = 0, seg_stop_time = 1000000000,
                       start_value = 5, stop_value = 5\<rparr>,
                     \<lparr>seg_kind = Constant, seg_start_time = 1000000000, seg_stop_time = 2000000000,
                       start_value = 20, stop_value = 20\<rparr>,
                     \<lparr>seg_kind = Constant, seg_start_time = 2000000000, seg_stop_time = 3000000000,
                       start_value = 30, stop_value = 30\<rparr>],
         cursor = 0, clock = \<lparr>clk_sample = 0, clk_rate = 100\<rparr>\<rparr> = (replicate 100 5, sq1)
      \<and> Sequence_process 100 sq1 = (replicate 100 20, sq2)
      \<and> Sequence_process 100 sq2 = (replicate 100 30, sq3))
   \<and> fst (Sequence_process (3 * 100)
        \<lparr>segments = [\<lparr>seg_kind = Constant, seg_start_time = 0, seg_stop_time = 1000000000,
                       start_value = 5, stop_value = 5\<rparr>,
                     \<lparr>seg_kind = Constant, seg_start_time = 1000000000, seg_stop_time = 2000000000,
                       start_value = 20, stop_value = 20\<rparr>,
                     \<lparr>seg_kind = Constant, seg_start_time = 2000000000, seg_stop_time = 3000000000,
                       start_value = 30, stop_value = 30\<rparr>],
         cursor = 0, clock = \<lparr>clk_sample = 0, clk_rate = 100\<rparr>\<rparr>)
      = replicate 100 5 @ replicate 100 20 @ replicate 100 30"
proof -
  let ?s1 = "\<lparr>seg_kind = Constant, seg_start_time = 0, seg_stop_time = 1000000000,
                       start_value = 5, stop_value = 5\<rparr>"
  let ?s2 = "\<lparr>seg_kind = Constant, seg_start_time = 1000000000, seg_stop_time = 2000000000,
                       start_value = 20, stop_value = 20\<rparr>"
  let ?s3 = "\<lparr>seg_kind = Constant, seg_start_time = 2000000000, seg_stop_time = 3000000000,
                       start_value = 30, stop_value = 30\<rparr>"
  let ?sq = "\<lparr>segments = [?s1, ?s2, ?s3], cursor = 0, clock = \<lparr>clk_sample = 0, clk_rate = 100\<rparr>\<rparr>"
  have s: "segments ?sq = [?s1, ?s2, ?s3]" "cursor ?sq = 0" by simp_all
  have c: "clk_sample (clock ?sq) = 0" "0 < nano div int (clk_rate (clock ?sq))"
    by (simp_all add: nano_def)
  have B: "(0::nat) < 100" by simp
  have kd: "seg_kind ?s1 = Constant" "seg_kind ?s2 = Constant" "seg_kind ?s3 = Constant"
    by simp_all
  have v: "start_value ?s1 = 5" "start_value ?s2 = 20" "start_value ?s3 = 30" by simp_all
  have st: "seg_stop_time ?s1 = sample_time (clock ?sq) 100"
    "seg_stop_time ?s2 = sample_time (clock ?sq) (2 * 100)"
    by (simp_all add: sample_time_def clock_after_def clock_time_def nano_def)
  show ?thesis by (rule C8_three_constants [OF s c B kd v st])
qed

subsection \<open>C9: bind\<close>

text \<open>
  C9. For modules at the addresses \<open>a\<close> and \<open>b\<close> (the same or not),
  \<^verbatim>\<open>AudioModule::bind\<close> called on \<open>a\<close> with \<open>b\<close> returns \<open>b\<close>; afterwards the backward
  pointer of \<open>a\<close> is \<open>b\<close>, the forward pointer of \<open>b\<close> is \<open>a\<close>, and the chain descriptor
  pointer of \<open>b\<close> is the one \<open>a\<close> had; no other module changes. (Mixdown registers its
  inputs with \<open>ModuleMixDown_bind\<close> instead.)
\<close>

theorem C9_bind_links:
  assumes "h a = Some ma" and "h b = Some mb"
  shows "\<exists>h' ma' mb'.
           AudioModule_bind a (Some b) h = Inr (Some b, h')
           \<and> h' a = Some ma' \<and> h' b = Some mb'
           \<and> backward ma' = Some b
           \<and> forward mb' = Some a
           \<and> chain mb' = chain ma
           \<and> (\<forall>r. r \<noteq> a \<and> r \<noteq> b \<longrightarrow> h' r = h r)"
  using assms
  by (cases "a = b") (auto simp: AudioModule_bind_def Let_def set_forward_def set_chain_info_def)

text \<open>
  An instance of C9: two modules, the first in the chain whose descriptor is at
  address 7.
\<close>

theorem C9_witness:
  "\<exists>h' ma' mb'.
     AudioModule_bind 0 (Some 1)
       [0 \<mapsto> \<lparr>backward = None, forward = None, chain = Some 7,
              info = \<lparr>mi_sample_rate = 1, mi_channels = 1, out_buffer = 1\<rparr>,
              buff = None :: AudioBuffer option\<rparr>,
        1 \<mapsto> \<lparr>backward = None, forward = None, chain = None,
              info = \<lparr>mi_sample_rate = 1, mi_channels = 1, out_buffer = 1\<rparr>,
              buff = None\<rparr>] = Inr (Some 1, h')
     \<and> h' 0 = Some ma' \<and> h' 1 = Some mb'
     \<and> backward ma' = Some 1 \<and> forward mb' = Some 0 \<and> chain mb' = Some 7"
proof -
  let ?a = "\<lparr>backward = None, forward = None, chain = Some 7,
              info = \<lparr>mi_sample_rate = 1, mi_channels = 1, out_buffer = 1\<rparr>,
              buff = None :: AudioBuffer option\<rparr>"
  let ?b = "\<lparr>backward = None, forward = None, chain = None,
              info = \<lparr>mi_sample_rate = 1, mi_channels = 1, out_buffer = 1\<rparr>,
              buff = None :: AudioBuffer option\<rparr>"
  let ?h = "[0 \<mapsto> ?a, 1 \<mapsto> ?b] :: addr \<rightharpoonup> AudioBuffer AudioModule"
  have a: "?h 0 = Some ?a" by simp
  have b: "?h 1 = Some ?b" by simp
  from C9_bind_links [OF a b] obtain h' ma' mb' where
    "AudioModule_bind 0 (Some 1) ?h = Inr (Some 1, h')" "h' 0 = Some ma'" "h' 1 = Some mb'"
    "backward ma' = Some 1" "forward mb' = Some 0" "chain mb' = chain ?a"
    by blast
  then show ?thesis by auto
qed

subsection \<open>C10: the averages of LatencyModule\<close>

text \<open>
  C10, as the code has it. \<^verbatim>\<open>average_time()\<close> and \<^verbatim>\<open>average_latency()\<close> divide by
  \<^verbatim>\<open>processed()\<close> without a check. In a \<^verbatim>\<open>LatencyModule\<close> that has gone, from its
  construction, through any completed processing cycles and calls of
  \<^verbatim>\<open>Counter::reset\<close>, \<^verbatim>\<open>processed()\<close> is the number of cycles completed since the last
  reset (since construction if there was none). Each average is a division by zero
  exactly when that number is 0, and has a value, the truncated quotient, exactly
  when \<^verbatim>\<open>processed()\<close> is positive.
\<close>

theorem C10_average_defined_since_reset:
  assumes "latency_run evs (LatencyModule_new base) = Inr m"
  shows "processed m = int (cycles_since_reset 0 evs)
     \<and> (average_time m = Inl DivisionByZero \<longleftrightarrow> cycles_since_reset 0 evs = 0)
     \<and> (average_latency m = Inl DivisionByZero \<longleftrightarrow> cycles_since_reset 0 evs = 0)
     \<and> ((\<exists>q. average_time m = Inr q) \<longleftrightarrow> 0 < processed m)
     \<and> ((\<exists>q. average_latency m = Inr q) \<longleftrightarrow> 0 < processed m)
     \<and> (0 < processed m \<longrightarrow>
          average_time m = Inr (total_operation_time m sdiv processed m)
          \<and> average_latency m = Inr (total_operation_latency m sdiv processed m))"
proof -
  have "processed (LatencyModule_new base) = int 0"
    by (simp add: processed_def LatencyModule_new_def)
  from latency_run_processed [OF assms this]
  have p: "processed m = int (cycles_since_reset 0 evs)" .
  then have nn: "0 \<le> processed m" by simp
  have t: "(\<exists>q. average_time m = Inr q) \<longleftrightarrow> 0 < processed m"
    using nn by (auto simp: average_time_def int64_div_def)
  have l: "(\<exists>q. average_latency m = Inr q) \<longleftrightarrow> 0 < processed m"
    using nn by (auto simp: average_latency_def int64_div_def)
  from p t l average_by_processed [of m] show ?thesis by simp
qed

text \<open>
  C10 as stated fails: the division by zero is not out of reach as soon as one
  \<^verbatim>\<open>meta_process()\<close> has completed. After one completed cycle and a call of
  \<^verbatim>\<open>Counter::reset\<close> both averages divide by zero.
\<close>

theorem C10_counterexample:
  "(case latency_run [Cycle 7 1 440, Reset]
           (LatencyModule_new \<lparr>backward = None, forward = None, chain = None,
              info = \<lparr>mi_sample_rate = 1, mi_channels = 1, out_buffer = 440\<rparr>,
              buff = None :: AudioBuffer option\<rparr>) of
      Inl e \<Rightarrow> False
    | Inr m \<Rightarrow> average_time m = Inl DivisionByZero
               \<and> average_latency m = Inl DivisionByZero)"
  by (simp add: LatencyModule_meta_process_def Counter_process_def int_fits_def
      LatencyModule_new_def Counter_reset_def average_time_def average_latency_def
      int64_div_def processed_def)

text \<open>
  An instance of C10: after 2 cycles of 3 ns and 4 ns, with latencies of - 4 ns and
  - 3 ns, the average time is 3 ns and the average latency - 3 ns.
\<close>

theorem C10_witness:
  "\<exists>m. latency_run [Cycle 3 (- 4) 440, Cycle 4 (- 3) 440]
           (LatencyModule_new \<lparr>backward = None, forward = None, chain = None,
              info = \<lparr>mi_sample_rate = 1, mi_channels = 1, out_buffer = 440\<rparr>,
              buff = None :: AudioBuffer option\<rparr>) = Inr m
     \<and> processed m = 2
     \<and> average_time m = Inr 3 \<and> average_latency m = Inr (- 3)"
proof -
  let ?new = "LatencyModule_new \<lparr>backward = None, forward = None, chain = None,
              info = \<lparr>mi_sample_rate = 1, mi_channels = 1, out_buffer = 440\<rparr>,
              buff = None :: AudioBuffer option\<rparr>"
  let ?evs = "[Cycle 3 (- 4) 440, Cycle 4 (- 3) 440]"
  have "\<exists>m. latency_run ?evs ?new = Inr m
      \<and> total_operation_time m = 7 \<and> total_operation_latency m = - 7"
    by (simp add: LatencyModule_meta_process_def Counter_process_def int_fits_def
        LatencyModule_new_def)
  then obtain m where run: "latency_run ?evs ?new = Inr m"
    and tot: "total_operation_time m = 7" "total_operation_latency m = - 7"
    by blast
  from C10_average_defined_since_reset [OF run]
  have p: "processed m = int (cycles_since_reset 0 ?evs)"
    and a: "0 < processed m \<longrightarrow>
          average_time m = Inr (total_operation_time m sdiv processed m)
          \<and> average_latency m = Inr (total_operation_latency m sdiv processed m)"
    by simp_all
  from p have p2: "processed m = 2" by simp
  with a tot have "average_time m = Inr 3 \<and> average_latency m = Inr (- 3)"
    by (simp add: signed_divide_int_def)
  with run p2 show ?thesis by blast
qed

end
